theory Spec2Isabelle
  imports Complex_Main "HOL-Library.Char_ord" "HOL-Library.List_Lexorder"
begin

section \<open>Data model of the budgeting ledger\<close>

text \<open>
  The server keeps four ledger collections (Budget, Transaction, Day, JournalEntry) and
  two collections of the features layered on them (Objective, Tontine). A collection is
  a list of documents in natural (insertion) order, so that \<open>findOne\<close> is the first
  match. JavaScript numbers are idealised as exact reals; ObjectIds are natural numbers;
  dates are the \<open>YYYY-MM-DD\<close> strings of the source, compared as strings. Fields that no
  ledger computation reads are left out: \<open>createdAt\<close>, \<open>time\<close>, \<open>meta\<close>, the ids of
  transactions, days and journal entries, the name and target date of an objective, the
  schedule and the positions of a tontine. Exceptions of the store itself (a failed write)
  are not modelled.
\<close>

type_synonym oid = nat

datatype frequency = Daily | Weekly | Monthly

datatype tx_type = Expense | Gain

datatype journal_type = JExpense | JGain | JAdjustment

record budget =
  b_id :: oid
  b_userId :: oid
  b_name :: string
  b_clientId :: "string option"
  b_amount :: real
  b_frequency :: frequency
  isPrimary :: bool
  initialAmount :: real
  currentAmount :: real

record transaction =
  t_userId :: oid
  t_budgetId :: "oid option"
  t_type :: tx_type
  t_amount :: real
  t_comment :: string
  t_date :: string

record day =
  d_userId :: oid
  d_date :: string
  initialPocket :: real
  budgetsAvailable :: real
  gains :: real
  expenses :: real
  finalPocket :: real
  locked :: bool

record affected_entry =
  a_budgetId :: oid
  a_before :: real
  a_after :: real

record journal_entry =
  j_userId :: oid
  txType :: journal_type
  j_amount :: real
  j_comment :: string
  affected :: "affected_entry list"
  ruleApplied :: string

record objective =
  o_id :: oid
  o_userId :: oid
  targetAmount :: real
  savedAmount :: real
  achieved :: bool

record tontine_member =
  m_userId :: oid
  contributed :: real

record tontine =
  tn_id :: oid
  tn_name :: string
  tn_budgetId :: "oid option"
  members :: "tontine_member list"
  totalAmount :: real

record store =
  budgets :: "budget list"
  transactions :: "transaction list"
  days :: "day list"
  journal :: "journal_entry list"
  objectives :: "objective list"
  tontines :: "tontine list"

subsection \<open>Store primitives\<close>

text \<open>\<open>updateOne\<close>: the first document matching the filter is rewritten, the others kept.\<close>

fun update_first :: "('a \<Rightarrow> bool) \<Rightarrow> ('a \<Rightarrow> 'a) \<Rightarrow> 'a list \<Rightarrow> 'a list" where
  "update_first P f [] = []"
| "update_first P f (x # xs) = (if P x then f x # xs else x # update_first P f xs)"

definition findById :: "oid \<Rightarrow> budget list \<Rightarrow> budget option" where
  "findById i bs = find (\<lambda>b. b_id b = i) bs"

definition set_currentAmount :: "oid \<Rightarrow> real \<Rightarrow> budget list \<Rightarrow> budget list" where
  "set_currentAmount i v bs = update_first (\<lambda>b. b_id b = i) (\<lambda>b. b\<lparr>currentAmount := v\<rparr>) bs"

definition inc_currentAmount :: "oid \<Rightarrow> real \<Rightarrow> budget list \<Rightarrow> budget list" where
  "inc_currentAmount i v bs =
     update_first (\<lambda>b. b_id b = i) (\<lambda>b. b\<lparr>currentAmount := currentAmount b + v\<rparr>) bs"

text \<open>
  \<open>findOneAndUpdate({_id, currentAmount: {$gte: amount}}, {$inc: {currentAmount: -amount}})\<close>:
  \<open>None\<close> when no document matches the filter.
\<close>

definition conditional_decrement :: "oid \<Rightarrow> real \<Rightarrow> budget list \<Rightarrow> budget list option" where
  "conditional_decrement i amt bs =
     (case find (\<lambda>b. b_id b = i \<and> currentAmount b \<ge> amt) bs of
        None \<Rightarrow> None
      | Some _ \<Rightarrow> Some (update_first (\<lambda>b. b_id b = i \<and> currentAmount b \<ge> amt)
                          (\<lambda>b. b\<lparr>currentAmount := currentAmount b + (- amt)\<rparr>) bs))"

definition primary_monthly :: "oid \<Rightarrow> budget list \<Rightarrow> budget option" where
  "primary_monthly uid bs =
     find (\<lambda>b. b_userId b = uid \<and> b_frequency b = Monthly \<and> isPrimary b) bs"

definition first_weekly :: "oid \<Rightarrow> budget list \<Rightarrow> budget option" where
  "first_weekly uid bs = find (\<lambda>b. b_userId b = uid \<and> b_frequency b = Weekly) bs"

text \<open>JavaScript \<open>a || b\<close> on numbers: \<open>0\<close> is falsy.\<close>

definition js_or :: "real \<Rightarrow> real \<Rightarrow> real" where
  "js_or a b = (if a = 0 then b else a)"

text \<open>\<open>Math.round\<close> rounds half up.\<close>

definition js_round :: "real \<Rightarrow> real" where
  "js_round x = real_of_int \<lfloor>x + 1 / 2\<rfloor>"

section \<open>Budget hierarchy validator\<close>

datatype message =
    MsgNotPositive
  | MsgWeeklyCap int
  | MsgDailyCap int
  | MsgDailyWeeklyCap int

datatype validation = Valid | Invalid message

fun is_cap_message :: "message \<Rightarrow> bool" where
  "is_cap_message MsgNotPositive = False"
| "is_cap_message (MsgWeeklyCap _) = True"
| "is_cap_message (MsgDailyCap _) = True"
| "is_cap_message (MsgDailyWeeklyCap _) = True"

text \<open>
  Each of the three cap rules is an early \<open>return { valid: false, message }\<close> of the
  source; a rule that does not fire is \<open>None\<close>. The message carries the floored cap it
  prints.
\<close>

definition weekly_cap_check :: "budget option \<Rightarrow> frequency \<Rightarrow> real \<Rightarrow> message option" where
  "weekly_cap_check primary freq numAmount =
     (case primary of
        Some p \<Rightarrow>
          if freq = Weekly then
            let maxWeekly = js_or (initialAmount p) (js_or (b_amount p) 0) / 4
            in if numAmount > maxWeekly then Some (MsgWeeklyCap \<lfloor>maxWeekly\<rfloor>) else None
          else None
      | None \<Rightarrow> None)"

definition daily_cap_check :: "budget option \<Rightarrow> frequency \<Rightarrow> real \<Rightarrow> message option" where
  "daily_cap_check primary freq numAmount =
     (case primary of
        Some p \<Rightarrow>
          if freq = Daily then
            let maxDaily = js_or (initialAmount p) (js_or (b_amount p) 0) / 28
            in if numAmount > maxDaily then Some (MsgDailyCap \<lfloor>maxDaily\<rfloor>) else None
          else None
      | None \<Rightarrow> None)"

definition daily_weekly_cap_check :: "budget option \<Rightarrow> frequency \<Rightarrow> real \<Rightarrow> message option" where
  "daily_weekly_cap_check weekly freq numAmount =
     (if freq = Daily then
        (case weekly of
           Some w \<Rightarrow>
             let maxDailyFromWeekly = js_or (b_amount w) (js_or (initialAmount w) 0) / 7
             in if numAmount > maxDailyFromWeekly
                then Some (MsgDailyWeeklyCap \<lfloor>maxDailyFromWeekly\<rfloor>) else None
         | None \<Rightarrow> None)
      else None)"

definition validateBudgetHierarchy :: "budget list \<Rightarrow> oid \<Rightarrow> frequency \<Rightarrow> real \<Rightarrow> validation" where
  "validateBudgetHierarchy bs userId freq numAmount =
     (if \<not> numAmount > 0 then Invalid MsgNotPositive
      else
        let primary = primary_monthly userId bs in
        (case weekly_cap_check primary freq numAmount of
           Some m \<Rightarrow> Invalid m
         | None \<Rightarrow>
            (case daily_cap_check primary freq numAmount of
               Some m \<Rightarrow> Invalid m
             | None \<Rightarrow>
                (case daily_weekly_cap_check (first_weekly userId bs) freq numAmount of
                   Some m \<Rightarrow> Invalid m
                 | None \<Rightarrow> Valid))))"

section \<open>Availability reconciler\<close>

text \<open>
  \<open>txs.reduce((s, t) => s + Number(t.amount || 0), 0)\<close> over the user's expense
  transactions whose date starts with the \<open>YYYY-MM\<close> of the current date.
\<close>

definition sum_amounts :: "transaction list \<Rightarrow> real" where
  "sum_amounts txs = foldl (\<lambda>acc t. acc + t_amount t) 0 txs"

definition month_expenses :: "oid \<Rightarrow> string \<Rightarrow> transaction list \<Rightarrow> real" where
  "month_expenses userId currentDate txs =
     (let yearMonth = take 7 currentDate
      in sum_amounts
           (filter (\<lambda>t. t_userId t = userId \<and> t_type t = Expense
                        \<and> take (length yearMonth) (t_date t) = yearMonth) txs))"

definition available_figure :: "budget \<Rightarrow> real \<Rightarrow> real" where
  "available_figure primary totalExpenses =
     (let base = js_or (initialAmount primary)
                   (js_or (b_amount primary) (js_or (currentAmount primary) 0))
      in max 0 (js_round ((base - totalExpenses) * 100) / 100))"

definition reconcile_entry :: "oid \<Rightarrow> oid \<Rightarrow> real \<Rightarrow> real \<Rightarrow> journal_entry" where
  "reconcile_entry userId primaryId stored available =
     \<lparr>j_userId = userId, txType = JAdjustment,
      j_amount = js_round ((available - stored) * 100) / 100,
      j_comment = ''Reconciliation automatique primary currentAmount'',
      affected = [\<lparr>a_budgetId = primaryId, a_before = stored, a_after = available\<rparr>],
      ruleApplied = ''reconcile_primary_current_amount''\<rparr>"

definition calculateBudgetsAvailable :: "oid \<Rightarrow> string \<Rightarrow> store \<Rightarrow> real \<times> store" where
  "calculateBudgetsAvailable userId currentDate s =
     (case primary_monthly userId (budgets s) of
        None \<Rightarrow> (0, s)
      | Some primary \<Rightarrow>
          let totalExpenses = month_expenses userId currentDate (transactions s);
              available = available_figure primary totalExpenses;
              stored = currentAmount primary;
              diff = \<bar>stored - available\<bar>
          in if diff > 1 / 100
             then (available,
                   s\<lparr>budgets := set_currentAmount (b_id primary) available (budgets s),
                     journal := journal s @ [reconcile_entry userId (b_id primary) stored available]\<rparr>)
             else (available, s))"

section \<open>Day reconciler\<close>

text \<open>\<open>Day.findOne({ userId }).sort({ date: -1 }).limit(1)\<close>: the user's Day of greatest date.\<close>

fun latest :: "day list \<Rightarrow> day option" where
  "latest [] = None"
| "latest (d # ds) =
     (case latest ds of
        None \<Rightarrow> Some d
      | Some e \<Rightarrow> if d_date d < d_date e then Some e else Some d)"

definition lastDay :: "oid \<Rightarrow> day list \<Rightarrow> day option" where
  "lastDay userId ds = latest (filter (\<lambda>d. d_userId d = userId) ds)"

definition find_day :: "oid \<Rightarrow> string \<Rightarrow> day list \<Rightarrow> day option" where
  "find_day userId date ds = find (\<lambda>d. d_userId d = userId \<and> d_date d = date) ds"

text \<open>\<open>Day.updateOne({ userId, date }, { $set: {...} }, { upsert: true })\<close>.\<close>

definition upsert_day ::
  "oid \<Rightarrow> string \<Rightarrow> real \<Rightarrow> real \<Rightarrow> real \<Rightarrow> real \<Rightarrow> real \<Rightarrow> day list \<Rightarrow> day list" where
  "upsert_day userId date ip ba g e fp ds =
     (case find_day userId date ds of
        Some _ \<Rightarrow>
          update_first (\<lambda>d. d_userId d = userId \<and> d_date d = date)
            (\<lambda>d. d\<lparr>initialPocket := ip, budgetsAvailable := ba, gains := g,
                    expenses := e, finalPocket := fp\<rparr>) ds
      | None \<Rightarrow>
          ds @ [\<lparr>d_userId = userId, d_date = date, initialPocket = ip, budgetsAvailable = ba,
                 gains = g, expenses = e, finalPocket = fp, locked = False\<rparr>])"

text \<open>
  The block "Update Day document totals" that every mutating route repeats after its
  writes: re-sum today's transactions, take \<open>initialPocket\<close> from the latest Day, run the
  availability reconciler, upsert the Day.
\<close>

definition day_rollup :: "oid \<Rightarrow> string \<Rightarrow> store \<Rightarrow> store" where
  "day_rollup userId currentDate s =
     (let todayTransactions =
            filter (\<lambda>t. t_userId t = userId \<and> t_date t = currentDate) (transactions s);
          totalGains = sum_amounts (filter (\<lambda>t. t_type t = Gain) todayTransactions);
          totalExpenses = sum_amounts (filter (\<lambda>t. t_type t = Expense) todayTransactions);
          initialPocket' = (case lastDay userId (days s) of Some d \<Rightarrow> finalPocket d | None \<Rightarrow> 0);
          r = calculateBudgetsAvailable userId currentDate s;
          finalPocket' = initialPocket' + totalGains - totalExpenses
      in (snd r)\<lparr>days := upsert_day userId currentDate initialPocket' (fst r)
                            totalGains totalExpenses finalPocket' (days (snd r))\<rparr>)"

text \<open>\<open>GET /api/days/:userId\<close>: the Day of the current date is created on first read.\<close>

definition get_days :: "string \<Rightarrow> oid \<Rightarrow> store \<Rightarrow> store" where
  "get_days currentDate userId s =
     (case find_day userId currentDate (days s) of
        Some _ \<Rightarrow> s
      | None \<Rightarrow>
          let initialPocket' = (case lastDay userId (days s) of Some d \<Rightarrow> finalPocket d | None \<Rightarrow> 0);
              r = calculateBudgetsAvailable userId currentDate s
          in (snd r)\<lparr>days := days (snd r) @
                [\<lparr>d_userId = userId, d_date = currentDate, initialPocket = initialPocket',
                  budgetsAvailable = fst r, gains = 0, expenses = 0,
                  finalPocket = initialPocket', locked = False\<rparr>]\<rparr>)"

section \<open>Cascade engine\<close>

datatype response =
    Created
  | Ok
  | BadRequest
  | HierarchyRejected message
  | NegativeBalanceRejected oid real
  | DayLocked
  | Forbidden
  | NotFound
  | ConcurrencyConflict
  | ServerError

fun http_status :: "response \<Rightarrow> nat" where
  "http_status Created = 201"
| "http_status Ok = 200"
| "http_status BadRequest = 400"
| "http_status (HierarchyRejected _) = 400"
| "http_status (NegativeBalanceRejected _ _) = 400"
| "http_status DayLocked = 403"
| "http_status Forbidden = 403"
| "http_status NotFound = 404"
| "http_status ConcurrencyConflict = 409"
| "http_status ServerError = 500"

record tx_request =
  rq_userId :: oid
  rq_type :: tx_type
  rq_amount :: real
  rq_comment :: string
  rq_budgetId :: oid

text \<open>The target budget and its immediate parent only.\<close>

definition cascade_set :: "oid \<Rightarrow> budget \<Rightarrow> budget list \<Rightarrow> budget list" where
  "cascade_set userId targetBudget bs =
     targetBudget #
       (case b_frequency targetBudget of
          Daily \<Rightarrow> (case first_weekly userId bs of Some weekly \<Rightarrow> [weekly] | None \<Rightarrow> [])
        | Weekly \<Rightarrow> (case primary_monthly userId bs of Some monthlyPrimary \<Rightarrow> [monthlyPrimary] | None \<Rightarrow> [])
        | Monthly \<Rightarrow> [])"

text \<open>
  The check loop: \<open>before = currentAmount\<close>, \<open>after = before - amount\<close> for each budget in order; the
  first negative \<open>after\<close> rejects the whole request.
\<close>

fun check_cascade :: "real \<Rightarrow> budget list \<Rightarrow> (oid \<times> real) + affected_entry list" where
  "check_cascade amt [] = Inr []"
| "check_cascade amt (b # bs) =
     (let beforeAmt = currentAmount b; afterAmt = beforeAmt - amt
      in if afterAmt < 0 then Inl (b_id b, afterAmt)
         else (case check_cascade amt bs of
                 Inl e \<Rightarrow> Inl e
               | Inr rest \<Rightarrow> Inr (\<lparr>a_budgetId = b_id b, a_before = beforeAmt, a_after = afterAmt\<rparr> # rest)))"

definition apply_affected :: "affected_entry list \<Rightarrow> budget list \<Rightarrow> budget list" where
  "apply_affected affd bs = foldl (\<lambda>acc a. set_currentAmount (a_budgetId a) (a_after a) acc) bs affd"

text \<open>
  Fallback mode: one conditional update per affected budget, in order. \<open>Inl\<close> is the
  thrown conflict, with the collection as it stands and the ids already updated.
\<close>

fun apply_conditional ::
  "real \<Rightarrow> affected_entry list \<Rightarrow> oid list \<Rightarrow> budget list \<Rightarrow> (budget list \<times> oid list) + budget list" where
  "apply_conditional amt [] updated bs = Inr bs"
| "apply_conditional amt (a # rest) updated bs =
     (case conditional_decrement (a_budgetId a) amt bs of
        None \<Rightarrow> Inl (bs, updated)
      | Some bs' \<Rightarrow> apply_conditional amt rest (updated @ [a_budgetId a]) bs')"

definition compensate :: "real \<Rightarrow> oid list \<Rightarrow> budget list \<Rightarrow> budget list" where
  "compensate amt updated bs = foldl (\<lambda>acc bid. inc_currentAmount bid amt acc) bs updated"

definition new_transaction :: "string \<Rightarrow> tx_request \<Rightarrow> transaction" where
  "new_transaction currentDate rq =
     \<lparr>t_userId = rq_userId rq, t_budgetId = Some (rq_budgetId rq), t_type = rq_type rq,
      t_amount = rq_amount rq, t_comment = rq_comment rq, t_date = currentDate\<rparr>"

definition expense_entry :: "tx_request \<Rightarrow> affected_entry list \<Rightarrow> string \<Rightarrow> journal_entry" where
  "expense_entry rq affd rule =
     \<lparr>j_userId = rq_userId rq, txType = JExpense, j_amount = rq_amount rq,
      j_comment = rq_comment rq, affected = affd, ruleApplied = rule\<rparr>"

definition gain_entry :: "tx_request \<Rightarrow> journal_entry" where
  "gain_entry rq =
     \<lparr>j_userId = rq_userId rq, txType = JGain, j_amount = rq_amount rq,
      j_comment = rq_comment rq, affected = [], ruleApplied = ''gain_to_savings''\<rparr>"

text \<open>
  Transactional mode. The Transaction is saved first inside the session; an abort
  (\<open>session.abortTransaction()\<close>) leaves the store as it was before the request.
\<close>

definition post_transaction_session :: "string \<Rightarrow> tx_request \<Rightarrow> store \<Rightarrow> response \<times> store" where
  "post_transaction_session currentDate rq s =
     (let s1 = s\<lparr>transactions := transactions s @ [new_transaction currentDate rq]\<rparr>
      in case rq_type rq of
           Expense \<Rightarrow>
             (case findById (rq_budgetId rq) (budgets s1) of
                None \<Rightarrow> (NotFound, s)
              | Some targetBudget \<Rightarrow>
                  (case check_cascade (rq_amount rq)
                          (cascade_set (rq_userId rq) targetBudget (budgets s1)) of
                     Inl (bid, afterAmt) \<Rightarrow> (NegativeBalanceRejected bid afterAmt, s)
                   | Inr affd \<Rightarrow>
                       (Created,
                        day_rollup (rq_userId rq) currentDate
                          (s1\<lparr>budgets := apply_affected affd (budgets s1),
                              journal := journal s1 @ [expense_entry rq affd ''cascade_expense'']\<rparr>))))
         | Gain \<Rightarrow>
             (Created,
              day_rollup (rq_userId rq) currentDate (s1\<lparr>journal := journal s1 @ [gain_entry rq]\<rparr>)))"

text \<open>
  Fallback mode. The snapshot check reads the collection as the request found it; \<open>env\<close>
  stands for the writes of concurrent requests to the Budget collection that land between
  that snapshot and the conditional updates (the identity when the request runs alone).
\<close>

definition post_transaction_fallback ::
  "(budget list \<Rightarrow> budget list) \<Rightarrow> string \<Rightarrow> tx_request \<Rightarrow> store \<Rightarrow> response \<times> store" where
  "post_transaction_fallback env currentDate rq s =
     (case rq_type rq of
        Expense \<Rightarrow>
          (case findById (rq_budgetId rq) (budgets s) of
             None \<Rightarrow> (NotFound, s)
           | Some targetBudget \<Rightarrow>
               (case check_cascade (rq_amount rq)
                       (cascade_set (rq_userId rq) targetBudget (budgets s)) of
                  Inl (bid, afterAmt) \<Rightarrow> (NegativeBalanceRejected bid afterAmt, s)
                | Inr affd \<Rightarrow>
                    (case apply_conditional (rq_amount rq) affd [] (env (budgets s)) of
                       Inl (bs', updated) \<Rightarrow>
                         (ConcurrencyConflict, s\<lparr>budgets := compensate (rq_amount rq) updated bs'\<rparr>)
                     | Inr bs' \<Rightarrow>
                         (Created,
                          day_rollup (rq_userId rq) currentDate
                            (s\<lparr>budgets := bs',
                               transactions := transactions s @ [new_transaction currentDate rq],
                               journal := journal s @
                                 [expense_entry rq affd ''cascade_expense_fallback'']\<rparr>)))))
      | Gain \<Rightarrow>
          (Created,
           day_rollup (rq_userId rq) currentDate
             (s\<lparr>transactions := transactions s @ [new_transaction currentDate rq],
                journal := journal s @ [gain_entry rq]\<rparr>)))"

definition day_is_locked :: "oid \<Rightarrow> string \<Rightarrow> day list \<Rightarrow> bool" where
  "day_is_locked userId date ds =
     (case find_day userId date ds of Some today \<Rightarrow> locked today | None \<Rightarrow> False)"

text \<open>
  \<open>Joi.number()\<close> refuses a number outside the safe-integer range of JavaScript
  (\<open>number.unsafe\<close>): \<open>Number.MAX_SAFE_INTEGER\<close> is \<open>2^53 - 1\<close>.
\<close>

definition MAX_SAFE_INTEGER :: real where
  "MAX_SAFE_INTEGER = 9007199254740991"

text \<open>
  \<open>POST /api/transactions\<close>. The Joi schema
  (\<open>amount: Joi.number().positive().required()\<close>, \<open>comment: Joi.string().max(500).required()\<close>)
  wants a positive amount that is not above \<open>Number.MAX_SAFE_INTEGER\<close> and a non-empty
  comment of at most 500 characters; then the day lock, then the existence of the target
  budget of an expense, then the mode branch on \<open>TRANSACTIONS_SUPPORTED\<close>.
\<close>

definition post_transaction ::
  "bool \<Rightarrow> (budget list \<Rightarrow> budget list) \<Rightarrow> string \<Rightarrow> tx_request \<Rightarrow> store \<Rightarrow> response \<times> store" where
  "post_transaction TRANSACTIONS_SUPPORTED env currentDate rq s =
     (if \<not> rq_amount rq > 0 \<or> rq_amount rq > MAX_SAFE_INTEGER
         \<or> rq_comment rq = [] \<or> length (rq_comment rq) > 500
      then (BadRequest, s)
      else if day_is_locked (rq_userId rq) currentDate (days s) then (DayLocked, s)
      else if rq_type rq = Expense \<and> findById (rq_budgetId rq) (budgets s) = None
      then (NotFound, s)
      else if TRANSACTIONS_SUPPORTED then post_transaction_session currentDate rq s
      else post_transaction_fallback env currentDate rq s)"

section \<open>Budget creation and edit\<close>

text \<open>
  \<open>POST /api/budgets\<close>. \<open>br_amount = None\<close> is an absent \<open>amount\<close>, \<open>br_frequency = None\<close>
  an absent or unknown frequency, \<open>br_clientId = None\<close> an absent client id; \<open>newId\<close> is
  the ObjectId given to the new document.
\<close>

record budget_request =
  br_userId :: oid
  br_name :: string
  br_amount :: "real option"
  br_frequency :: "frequency option"
  br_clientId :: "string option"
  br_isPrimary :: bool

definition new_budget :: "oid \<Rightarrow> budget_request \<Rightarrow> real \<Rightarrow> frequency \<Rightarrow> budget" where
  "new_budget newId rq numericAmount freq =
     \<lparr>b_id = newId, b_userId = br_userId rq, b_name = br_name rq, b_clientId = br_clientId rq,
      b_amount = numericAmount, b_frequency = freq, isPrimary = br_isPrimary rq,
      initialAmount = numericAmount, currentAmount = numericAmount\<rparr>"

text \<open>
  The journal entry of an allocation. The comment is
  \<open>Allocation automatique budget hebdo ${name}\<close> in transactional mode and carries the
  suffix \<open> (fallback)\<close> in fallback mode.
\<close>

definition allocation_entry ::
  "budget_request \<Rightarrow> real \<Rightarrow> affected_entry list \<Rightarrow> string \<Rightarrow> string \<Rightarrow> journal_entry" where
  "allocation_entry rq numericAmount affd suffix rule =
     \<lparr>j_userId = br_userId rq, txType = JExpense, j_amount = numericAmount,
      j_comment = ''Allocation automatique budget hebdo '' @ br_name rq @ suffix,
      affected = affd, ruleApplied = rule\<rparr>"

text \<open>A non-primary weekly budget is allocated from the primary monthly budget.\<close>

definition allocate_weekly ::
  "bool \<Rightarrow> (budget list \<Rightarrow> budget list) \<Rightarrow> budget \<Rightarrow> budget_request \<Rightarrow> real \<Rightarrow> store
     \<Rightarrow> response \<times> store" where
  "allocate_weekly TRANSACTIONS_SUPPORTED env budget rq numericAmount s =
     (case primary_monthly (br_userId rq) (budgets s) of
        None \<Rightarrow> (BadRequest, s)
      | Some primary \<Rightarrow>
          let beforeAmt = currentAmount primary; afterAmt = beforeAmt - numericAmount
          in if afterAmt < 0 then (NegativeBalanceRejected (b_id primary) afterAmt, s)
             else if TRANSACTIONS_SUPPORTED then
               (Created,
                s\<lparr>budgets := set_currentAmount (b_id primary) afterAmt (budgets s @ [budget]),
                  journal := journal s @
                    [allocation_entry rq numericAmount
                       [\<lparr>a_budgetId = b_id primary, a_before = beforeAmt, a_after = afterAmt\<rparr>,
                        \<lparr>a_budgetId = b_id budget, a_before = numericAmount, a_after = numericAmount\<rparr>]
                       [] ''allocation_weekly_from_month'']\<rparr>)
             else
               (case conditional_decrement (b_id primary) numericAmount (env (budgets s)) of
                  None \<Rightarrow> (ConcurrencyConflict, s\<lparr>budgets := env (budgets s)\<rparr>)
                | Some bs' \<Rightarrow>
                    (Created,
                     s\<lparr>budgets := bs' @ [budget],
                       journal := journal s @
                         [allocation_entry rq numericAmount
                            [\<lparr>a_budgetId = b_id primary, a_before = beforeAmt, a_after = afterAmt\<rparr>]
                            '' (fallback)'' ''allocation_weekly_from_month_fallback'']\<rparr>)))"

definition post_budget ::
  "bool \<Rightarrow> (budget list \<Rightarrow> budget list) \<Rightarrow> oid \<Rightarrow> budget_request \<Rightarrow> store \<Rightarrow> response \<times> store" where
  "post_budget TRANSACTIONS_SUPPORTED env newId rq s =
     (case br_amount rq of
        None \<Rightarrow> (BadRequest, s)
      | Some numericAmount \<Rightarrow>
         (case br_frequency rq of
            None \<Rightarrow> (BadRequest, s)
          | Some freq \<Rightarrow>
             if br_name rq = [] then (BadRequest, s)
             else if \<not> numericAmount > 0 then (BadRequest, s)
             else if br_isPrimary rq
                     \<and> find (\<lambda>b. b_userId b = br_userId rq \<and> isPrimary b) (budgets s) \<noteq> None
             then (BadRequest, s)
             else if br_isPrimary rq \<and> freq \<noteq> Monthly then (BadRequest, s)
             else
               (case (if \<not> br_isPrimary rq
                      then validateBudgetHierarchy (budgets s) (br_userId rq) freq numericAmount
                      else Valid) of
                  Invalid m \<Rightarrow> (HierarchyRejected m, s)
                | Valid \<Rightarrow>
                    if br_clientId rq \<noteq> None
                       \<and> find (\<lambda>b. b_clientId b = br_clientId rq \<and> b_userId b = br_userId rq)
                            (budgets s) \<noteq> None
                    then (Ok, s)
                    else if \<not> br_isPrimary rq \<and> freq = Weekly
                    then allocate_weekly TRANSACTIONS_SUPPORTED env
                           (new_budget newId rq numericAmount freq) rq numericAmount s
                    else (Created,
                          s\<lparr>budgets := budgets s @ [new_budget newId rq numericAmount freq]\<rparr>))))"

text \<open>
  \<open>PUT /api/budgets/:id\<close>: name and amount only (the frequency cannot be edited); an
  amount edit re-runs the hierarchy validator. An empty name is falsy and ignored.
\<close>

definition put_budget :: "oid \<Rightarrow> string \<Rightarrow> real option \<Rightarrow> store \<Rightarrow> response \<times> store" where
  "put_budget i name amountOpt s =
     (case findById i (budgets s) of
        None \<Rightarrow> (NotFound, s)
      | Some budget \<Rightarrow>
          let rename = (\<lambda>b. if name \<noteq> [] then b\<lparr>b_name := name\<rparr> else b)
          in (case amountOpt of
                None \<Rightarrow> (Ok, s\<lparr>budgets := update_first (\<lambda>b. b_id b = i) rename (budgets s)\<rparr>)
              | Some numericAmount \<Rightarrow>
                  if \<not> numericAmount > 0 then (BadRequest, s)
                  else if isPrimary budget then (BadRequest, s)
                  else
                    (case validateBudgetHierarchy (budgets s) (b_userId budget)
                            (b_frequency budget) numericAmount of
                       Invalid m \<Rightarrow> (HierarchyRejected m, s)
                     | Valid \<Rightarrow>
                         (Ok,
                          s\<lparr>budgets := update_first (\<lambda>b. b_id b = i)
                               (\<lambda>b. (rename b)\<lparr>b_amount := numericAmount\<rparr>) (budgets s)\<rparr>))))"

section \<open>Objective allocation\<close>

record allocate_request =
  al_userId :: oid
  al_budgetId :: oid
  al_amount :: real

text \<open>
  \<open>POST /api/objectives/:id/allocate\<close> prepares its own cascade: a daily budget takes the
  weekly and the primary monthly budget with it. The comment of its Transaction and
  JournalEntry ends with the objective's id in the source; the id is left out here. Both
  modes run the same check loop before their first budget write, and the transactional
  mode aborts its session on a rejection, so the check is written once, ahead of the mode
  branch. A conflict in fallback mode is answered with status 500 by this route.
\<close>

definition allocate_cascade_set :: "oid \<Rightarrow> budget \<Rightarrow> budget list \<Rightarrow> budget list" where
  "allocate_cascade_set userId budget bs =
     budget #
       (case b_frequency budget of
          Daily \<Rightarrow>
            (case first_weekly userId bs of Some weekly \<Rightarrow> [weekly] | None \<Rightarrow> []) @
            (case primary_monthly userId bs of Some monthlyPrimary \<Rightarrow> [monthlyPrimary] | None \<Rightarrow> [])
        | Weekly \<Rightarrow> (case primary_monthly userId bs of Some monthlyPrimary \<Rightarrow> [monthlyPrimary] | None \<Rightarrow> [])
        | Monthly \<Rightarrow> [])"

definition allocation_transaction :: "string \<Rightarrow> allocate_request \<Rightarrow> transaction" where
  "allocation_transaction currentDate rq =
     \<lparr>t_userId = al_userId rq, t_budgetId = Some (al_budgetId rq), t_type = Expense,
      t_amount = al_amount rq, t_comment = ''Allocation vers objectif'', t_date = currentDate\<rparr>"

definition objective_entry :: "allocate_request \<Rightarrow> affected_entry list \<Rightarrow> string \<Rightarrow> journal_entry" where
  "objective_entry rq affd rule =
     \<lparr>j_userId = al_userId rq, txType = JExpense, j_amount = al_amount rq,
      j_comment = ''Allocation vers objectif'', affected = affd, ruleApplied = rule\<rparr>"

definition save_objective :: "oid \<Rightarrow> real \<Rightarrow> objective list \<Rightarrow> objective list" where
  "save_objective objId amt os =
     update_first (\<lambda>ob. o_id ob = objId)
       (\<lambda>ob. let saved = js_or (savedAmount ob) 0 + amt
             in ob\<lparr>savedAmount := saved,
                   achieved := (if saved \<ge> targetAmount ob then True else achieved ob)\<rparr>) os"

definition post_allocate ::
  "bool \<Rightarrow> (budget list \<Rightarrow> budget list) \<Rightarrow> string \<Rightarrow> oid \<Rightarrow> allocate_request \<Rightarrow> store
     \<Rightarrow> response \<times> store" where
  "post_allocate TRANSACTIONS_SUPPORTED env currentDate objId rq s =
     (if al_amount rq = 0 then (BadRequest, s)
      else if al_amount rq \<le> 0 then (BadRequest, s)
      else
        (case find (\<lambda>ob. o_id ob = objId) (objectives s) of
           None \<Rightarrow> (NotFound, s)
         | Some obj \<Rightarrow>
            (case findById (al_budgetId rq) (budgets s) of
               None \<Rightarrow> (NotFound, s)
             | Some budget \<Rightarrow>
                if b_userId budget \<noteq> al_userId rq then (Forbidden, s)
                else if al_amount rq > max 0 (currentAmount budget) then (BadRequest, s)
                else
                  (case check_cascade (al_amount rq)
                          (allocate_cascade_set (al_userId rq) budget (budgets s)) of
                     Inl (bid, afterAmt) \<Rightarrow> (NegativeBalanceRejected bid afterAmt, s)
                   | Inr affd \<Rightarrow>
                      if TRANSACTIONS_SUPPORTED then
                        (Ok,
                         (day_rollup (al_userId rq) currentDate
                            (s\<lparr>budgets := apply_affected affd (budgets s),
                               transactions := transactions s @ [allocation_transaction currentDate rq],
                               journal := journal s @
                                 [objective_entry rq affd ''allocate_to_objective'']\<rparr>))
                         \<lparr>objectives := save_objective objId (al_amount rq) (objectives s)\<rparr>)
                      else
                        (case apply_conditional (al_amount rq) affd [] (env (budgets s)) of
                           Inl (bs', updated) \<Rightarrow>
                             (ServerError, s\<lparr>budgets := compensate (al_amount rq) updated bs'\<rparr>)
                         | Inr bs' \<Rightarrow>
                             (Ok,
                              (day_rollup (al_userId rq) currentDate
                                 (s\<lparr>budgets := bs',
                                    transactions := transactions s @
                                      [allocation_transaction currentDate rq],
                                    journal := journal s @
                                      [objective_entry rq affd ''allocate_to_objective_fallback'']\<rparr>))
                              \<lparr>objectives := save_objective objId (al_amount rq) (objectives s)\<rparr>))))))"

section \<open>Tontine contribution\<close>

text \<open>
  \<open>POST /api/tontines/:id/contribute\<close>. A tontine linked to a budget saves an expense
  Transaction and runs the Day block; no Day lookup for a lock and no budget write precede
  it.
\<close>

definition contribute_transaction :: "string \<Rightarrow> oid \<Rightarrow> oid \<Rightarrow> string \<Rightarrow> real \<Rightarrow> transaction" where
  "contribute_transaction currentDate userId bid name amt =
     \<lparr>t_userId = userId, t_budgetId = Some bid, t_type = Expense, t_amount = amt,
      t_comment = ''Tontine: '' @ name, t_date = currentDate\<rparr>"

definition post_contribute :: "string \<Rightarrow> oid \<Rightarrow> oid \<Rightarrow> real \<Rightarrow> store \<Rightarrow> response \<times> store" where
  "post_contribute currentDate tontineId userId amt s =
     (if amt = 0 then (BadRequest, s)
      else
        (case find (\<lambda>t. tn_id t = tontineId) (tontines s) of
           None \<Rightarrow> (NotFound, s)
         | Some tontine \<Rightarrow>
            (case find (\<lambda>m. m_userId m = userId) (members tontine) of
               None \<Rightarrow> (BadRequest, s)
             | Some _ \<Rightarrow>
                let s1 = s\<lparr>tontines :=
                            update_first (\<lambda>t. tn_id t = tontineId)
                              (\<lambda>t. t\<lparr>members :=
                                       update_first (\<lambda>m. m_userId m = userId)
                                         (\<lambda>m. m\<lparr>contributed := js_or (contributed m) 0 + amt\<rparr>)
                                         (members t),
                                     totalAmount := js_or (totalAmount t) 0 + amt\<rparr>)
                              (tontines s)\<rparr>
                in (case tn_budgetId tontine of
                      None \<Rightarrow> (Ok, s1)
                    | Some bid \<Rightarrow>
                        (Ok,
                         day_rollup userId currentDate
                           (s1\<lparr>transactions := transactions s1 @
                                 [contribute_transaction currentDate userId bid
                                    (tn_name tontine) amt]\<rparr>))))))"

section \<open>The exposed operations\<close>

text \<open>
  One request of the routes that write the ledger, handled in the mode the process runs in
  (\<open>supported\<close> is \<open>TRANSACTIONS_SUPPORTED\<close>) on the date \<open>currentDate\<close> that
  \<open>getTodayDate()\<close> returns. \<open>GetAvailable\<close> is a bare call of the availability
  reconciler, as \<open>GET /api/dashboard/:userId\<close> makes it when the Day does not exist yet.
\<close>

datatype request =
    PostTransaction tx_request
  | PostBudget oid budget_request
  | PutBudget oid string "real option"
  | PostAllocate oid allocate_request
  | GetAvailable oid
  | GetDays oid
  | PostContribute oid oid real

fun handle ::
  "bool \<Rightarrow> (budget list \<Rightarrow> budget list) \<Rightarrow> string \<Rightarrow> request \<Rightarrow> store \<Rightarrow> response \<times> store" where
  "handle supported env currentDate (PostTransaction rq) s = post_transaction supported env currentDate rq s"
| "handle supported env currentDate (PostBudget newId rq) s = post_budget supported env newId rq s"
| "handle supported env currentDate (PutBudget i name amt) s = put_budget i name amt s"
| "handle supported env currentDate (PostAllocate objId rq) s = post_allocate supported env currentDate objId rq s"
| "handle supported env currentDate (GetAvailable userId) s =
     (Ok, snd (calculateBudgetsAvailable userId currentDate s))"
| "handle supported env currentDate (GetDays userId) s = (Ok, get_days currentDate userId s)"
| "handle supported env currentDate (PostContribute tontineId userId amt) s =
     post_contribute currentDate tontineId userId amt s"

text \<open>The ledger invariant: no budget of the collection has a negative balance.\<close>

definition nonneg :: "budget list \<Rightarrow> bool" where
  "nonneg bs = list_all (\<lambda>b. currentAmount b \<ge> 0) bs"

section \<open>Transaction-capability detector and startup\<close>

text \<open>
  \<open>checkTransactionsSupport\<close> runs on the connection's \<open>connected\<close> event. The probe opens
  a session, starts a transaction and commits it; the outcome of that sequence against
  the store is the parameter. A rejected commit is caught by the \<open>.catch(() => {})\<close> on
  the commit itself, so it does not reach the handler that clears the flag.
\<close>

datatype node_env = Production | Development

datatype probe_outcome =
    StartSessionThrows
  | StartTransactionThrows
  | CommitRejected
  | CommitAccepted

fun checkTransactionsSupport :: "probe_outcome \<Rightarrow> bool" where
  "checkTransactionsSupport StartSessionThrows = False"
| "checkTransactionsSupport StartTransactionThrows = False"
| "checkTransactionsSupport CommitRejected = True"
| "checkTransactionsSupport CommitAccepted = True"

text \<open>
  The process: the module-level flag (initially \<open>true\<close>), whether \<open>app.listen\<close> has
  run, whether \<open>process.exit\<close> has run. Its events are the handlers the module
  registers: the \<open>connected\<close> handler, the end of \<open>startServer\<close> (which calls
  \<open>app.listen\<close> once the connection is up, without reading the flag) and the
  \<open>beforeExit\<close> handler, the only place where the flag stops the process.
\<close>

record process =
  TRANSACTIONS_SUPPORTED :: bool
  listening :: bool
  exited :: bool

datatype event = Connected probe_outcome | StartServerListens | BeforeExit

fun on_event :: "node_env \<Rightarrow> process \<Rightarrow> event \<Rightarrow> process" where
  "on_event env p (Connected outcome) =
     (if exited p then p else p\<lparr>TRANSACTIONS_SUPPORTED := checkTransactionsSupport outcome\<rparr>)"
| "on_event env p StartServerListens =
     (if exited p then p else p\<lparr>listening := True\<rparr>)"
| "on_event env p BeforeExit =
     (if exited p then p
      else if env = Production \<and> \<not> TRANSACTIONS_SUPPORTED p then p\<lparr>exited := True\<rparr>
      else p)"

definition module_loaded :: process where
  "module_loaded = \<lparr>TRANSACTIONS_SUPPORTED = True, listening = False, exited = False\<rparr>"

definition run :: "node_env \<Rightarrow> event list \<Rightarrow> process" where
  "run env evs = foldl (on_event env) module_loaded evs"

definition serves_traffic :: "process \<Rightarrow> bool" where
  "serves_traffic p \<longleftrightarrow> listening p \<and> \<not> exited p"

section \<open>Vocabulary of the statements\<close>

text \<open>The balance of a budget as a reader of the Budget collection sees it.\<close>

definition balance :: "oid \<Rightarrow> budget list \<Rightarrow> real option" where
  "balance i bs = map_option currentAmount (findById i bs)"

text \<open>The journal entry the check loop builds for one budget of the cascade set.\<close>

definition cascade_entry :: "real \<Rightarrow> budget \<Rightarrow> affected_entry" where
  "cascade_entry amt b =
     \<lparr>a_budgetId = b_id b, a_before = currentAmount b, a_after = currentAmount b - amt\<rparr>"

text \<open>The store an accepted expense leaves, in either mode when the request runs alone.\<close>

definition expense_written :: "string \<Rightarrow> tx_request \<Rightarrow> budget \<Rightarrow> string \<Rightarrow> store \<Rightarrow> store" where
  "expense_written d rq t rule s =
     s\<lparr>transactions := transactions s @ [new_transaction d rq],
       budgets := apply_affected
          (map (cascade_entry (rq_amount rq)) (cascade_set (rq_userId rq) t (budgets s)))
          (budgets s),
       journal := journal s @
         [expense_entry rq
            (map (cascade_entry (rq_amount rq)) (cascade_set (rq_userId rq) t (budgets s)))
            rule]\<rparr>"

text \<open>
  The balance the cascade alone gives budget \<open>i\<close>: lowered by the amount for the
  budgets of the cascade set, untouched for the others.
\<close>

definition cascade_value :: "real \<Rightarrow> budget list \<Rightarrow> budget list \<Rightarrow> oid \<Rightarrow> real option" where
  "cascade_value amt cs bs i =
     (if i \<in> b_id ` set cs then map_option (\<lambda>c. c - amt) (balance i bs) else balance i bs)"

text \<open>What a gain posting writes before the Day block, in either mode.\<close>

definition gain_written :: "string \<Rightarrow> tx_request \<Rightarrow> store \<Rightarrow> store" where
  "gain_written d rq s =
     s\<lparr>transactions := transactions s @ [new_transaction d rq],
       journal := journal s @ [gain_entry rq]\<rparr>"

text \<open>The sum the Day block takes over the transactions of the day, by type.\<close>

definition today_sum :: "tx_type \<Rightarrow> oid \<Rightarrow> string \<Rightarrow> transaction list \<Rightarrow> real" where
  "today_sum ty u d txs =
     sum_amounts (filter (\<lambda>t. t_type t = ty) (filter (\<lambda>t. t_userId t = u \<and> t_date t = d) txs))"

text \<open>What a contribution to a budget-linked tontine writes before the Day block.\<close>

definition contribution_written ::
  "string \<Rightarrow> oid \<Rightarrow> oid \<Rightarrow> oid \<Rightarrow> string \<Rightarrow> real \<Rightarrow> store \<Rightarrow> store" where
  "contribution_written d tontineId userId bid name amt s =
     s\<lparr>tontines :=
          update_first (\<lambda>t. tn_id t = tontineId)
            (\<lambda>t. t\<lparr>members :=
                     update_first (\<lambda>m. m_userId m = userId)
                       (\<lambda>m. m\<lparr>contributed := js_or (contributed m) 0 + amt\<rparr>) (members t),
                   totalAmount := js_or (totalAmount t) 0 + amt\<rparr>)
            (tontines s),
       transactions := transactions s @ [contribute_transaction d userId bid name amt]\<rparr>"

section \<open>Example ledgers\<close>

text \<open>
  User 7 with the budgets of the literal scenario: a primary monthly budget of 400000
  from which a weekly budget of 100000 has been allocated, and a daily budget of 14285.
\<close>

definition salary :: budget where
  "salary = \<lparr>b_id = 1, b_userId = 7, b_name = ''Salaire'', b_clientId = None,
     b_amount = 400000, b_frequency = Monthly, isPrimary = True,
     initialAmount = 400000, currentAmount = 300000\<rparr>"

definition week_budget :: budget where
  "week_budget = \<lparr>b_id = 2, b_userId = 7, b_name = ''Semaine'', b_clientId = None,
     b_amount = 100000, b_frequency = Weekly, isPrimary = False,
     initialAmount = 100000, currentAmount = 100000\<rparr>"

definition day_budget :: budget where
  "day_budget = \<lparr>b_id = 3, b_userId = 7, b_name = ''Jour'', b_clientId = None,
     b_amount = 14285, b_frequency = Daily, isPrimary = False,
     initialAmount = 14285, currentAmount = 14285\<rparr>"

text \<open>The same weekly budget after most of it has been spent.\<close>

definition week_low :: budget where
  "week_low = week_budget\<lparr>currentAmount := 1000\<rparr>"

text \<open>A budget that holds exactly \<open>Number.MAX_SAFE_INTEGER\<close>.\<close>

definition vault :: budget where
  "vault = \<lparr>b_id = 4, b_userId = 7, b_name = ''Coffre'', b_clientId = None,
     b_amount = 9007199254740991, b_frequency = Monthly, isPrimary = False,
     initialAmount = 9007199254740991, currentAmount = 9007199254740991\<rparr>"

definition ledger_of :: "budget list \<Rightarrow> store" where
  "ledger_of bs = \<lparr>budgets = bs, transactions = [], days = [], journal = [],
     objectives = [], tontines = []\<rparr>"

definition daily_request :: "real \<Rightarrow> budget_request" where
  "daily_request a = \<lparr>br_userId = 7, br_name = ''Jour'', br_amount = Some a,
     br_frequency = Some Daily, br_clientId = None, br_isPrimary = False\<rparr>"

definition weekly_request :: "real \<Rightarrow> budget_request" where
  "weekly_request a = \<lparr>br_userId = 7, br_name = ''Semaine'', br_amount = Some a,
     br_frequency = Some Weekly, br_clientId = None, br_isPrimary = False\<rparr>"

definition expense_request :: "oid \<Rightarrow> real \<Rightarrow> tx_request" where
  "expense_request bid amt = \<lparr>rq_userId = 7, rq_type = Expense, rq_amount = amt,
     rq_comment = ''achat'', rq_budgetId = bid\<rparr>"

definition gain_request :: "oid \<Rightarrow> real \<Rightarrow> tx_request" where
  "gain_request bid amt = \<lparr>rq_userId = 7, rq_type = Gain, rq_amount = amt,
     rq_comment = ''vente'', rq_budgetId = bid\<rparr>"

text \<open>
  A user whose primary monthly budget is 1000 and who spent 5000 this month from a second,
  non-primary monthly budget.
\<close>

definition small_salary :: budget where
  "small_salary = \<lparr>b_id = 1, b_userId = 7, b_name = ''Salaire'', b_clientId = None,
     b_amount = 1000, b_frequency = Monthly, isPrimary = True,
     initialAmount = 1000, currentAmount = 1000\<rparr>"

definition side_budget :: budget where
  "side_budget = \<lparr>b_id = 2, b_userId = 7, b_name = ''Tontine budget'', b_clientId = None,
     b_amount = 100000, b_frequency = Monthly, isPrimary = False,
     initialAmount = 100000, currentAmount = 95000\<rparr>"

definition overspent_ledger :: store where
  "overspent_ledger = \<lparr>budgets = [small_salary, side_budget],
     transactions = [\<lparr>t_userId = 7, t_budgetId = Some 2, t_type = Expense, t_amount = 5000,
        t_comment = ''achat'', t_date = ''2026-01-10''\<rparr>],
     days = [], journal = [], objectives = [], tontines = []\<rparr>"

text \<open>
  A user whose primary monthly budget is in step with the history (no expense yet), a
  tontine linked to that budget, and today's Day already locked.
\<close>

definition synced_salary :: budget where
  "synced_salary = salary\<lparr>currentAmount := 400000\<rparr>"

definition office_tontine :: tontine where
  "office_tontine = \<lparr>tn_id = 5, tn_name = ''Office'', tn_budgetId = Some 1,
     members = [\<lparr>m_userId = 7, contributed = 0\<rparr>], totalAmount = 0\<rparr>"

definition tontine_ledger :: store where
  "tontine_ledger = \<lparr>budgets = [synced_salary], transactions = [],
     days = [\<lparr>d_userId = 7, d_date = ''2026-01-15'', initialPocket = 0,
              budgetsAvailable = 400000, gains = 0, expenses = 0, finalPocket = 0,
              locked = True\<rparr>],
     journal = [], objectives = [], tontines = [office_tontine]\<rparr>"

text \<open>
  The scenario ledger with yesterday's Day closed at a \<open>finalPocket\<close> of 2000; today's
  Day is created by a first read, then two expenses of 100 and 50 are posted against the
  daily budget.
\<close>

definition yesterday_ledger :: store where
  "yesterday_ledger = \<lparr>budgets = [salary, week_budget, day_budget], transactions = [],
     days = [\<lparr>d_userId = 7, d_date = ''2026-01-14'', initialPocket = 1500,
              budgetsAvailable = 400000, gains = 500, expenses = 0, finalPocket = 2000,
              locked = False\<rparr>],
     journal = [], objectives = [], tontines = []\<rparr>"

definition today_opened :: store where
  "today_opened = get_days ''2026-01-15'' 7 yesterday_ledger"

definition after_first_expense :: store where
  "after_first_expense =
     snd (post_transaction True id ''2026-01-15'' (expense_request 3 100) today_opened)"

definition after_second_expense :: store where
  "after_second_expense =
     snd (post_transaction True id ''2026-01-15'' (expense_request 3 50) after_first_expense)"

section \<open>Properties of the hierarchy validator\<close>

lemma validate_valid_iff:
  "validateBudgetHierarchy bs u f a = Valid \<longleftrightarrow>
     a > 0
     \<and> (\<forall>p. f = Weekly \<and> primary_monthly u bs = Some p
            \<longrightarrow> a \<le> js_or (initialAmount p) (js_or (b_amount p) 0) / 4)
     \<and> (\<forall>p. f = Daily \<and> primary_monthly u bs = Some p
            \<longrightarrow> a \<le> js_or (initialAmount p) (js_or (b_amount p) 0) / 28)
     \<and> (\<forall>w. f = Daily \<and> first_weekly u bs = Some w
            \<longrightarrow> a \<le> js_or (b_amount w) (js_or (initialAmount w) 0) / 7)"
  by (cases f; cases "primary_monthly u bs"; cases "first_weekly u bs")
     (auto simp: validateBudgetHierarchy_def weekly_cap_check_def daily_cap_check_def
        daily_weekly_cap_check_def Let_def)

lemma validate_invalid_message:
  "validateBudgetHierarchy bs u f a = Invalid m \<Longrightarrow>
     (m = MsgNotPositive \<and> \<not> a > 0) \<or> (is_cap_message m \<and> a > 0)"
  by (auto simp: validateBudgetHierarchy_def weekly_cap_check_def daily_cap_check_def
        daily_weekly_cap_check_def Let_def split: option.splits if_splits)

lemma validate_scenario_weekly:
  assumes "primary_monthly u bs = Some p" "initialAmount p = 400000"
  shows "validateBudgetHierarchy bs u Weekly 100000 = Valid"
    and "validateBudgetHierarchy bs u Weekly 100001 = Invalid (MsgWeeklyCap 100000)"
  using assms
  by (simp_all add: validateBudgetHierarchy_def weekly_cap_check_def daily_cap_check_def
        daily_weekly_cap_check_def js_or_def)

lemma validate_scenario_daily:
  assumes "primary_monthly u bs = Some p" "initialAmount p = 400000"
  shows "validateBudgetHierarchy bs u Daily 14286 = Invalid (MsgDailyCap 14285)"
    and "first_weekly u bs = Some w \<Longrightarrow> b_amount w = 100000
           \<Longrightarrow> validateBudgetHierarchy bs u Daily 14285 = Valid"
  using assms
  by (simp_all add: validateBudgetHierarchy_def weekly_cap_check_def daily_cap_check_def
        daily_weekly_cap_check_def js_or_def)

lemma put_budget_revalidates:
  assumes "findById i (budgets s) = Some b" "\<not> isPrimary b" "a > 0"
    and "validateBudgetHierarchy (budgets s) (b_userId b) (b_frequency b) a = Invalid m"
  shows "put_budget i name (Some a) s = (HierarchyRejected m, s)"
  using assms by (simp add: put_budget_def Let_def)

lemma post_budget_validates:
  assumes "br_amount rq = Some a" "br_frequency rq = Some f" "\<not> br_isPrimary rq"
    and "br_name rq \<noteq> []"
    and "validateBudgetHierarchy (budgets s) (br_userId rq) f a = Invalid m"
  shows "post_budget supported env newId rq s =
           (if a > 0 then HierarchyRejected m else BadRequest, s)"
  using assms by (simp add: post_budget_def)

lemma hierarchy_scenario_creation:
  "fst (post_budget True id 2 (weekly_request 100000) (ledger_of [synced_salary])) = Created
   \<and> budgets (snd (post_budget True id 2 (weekly_request 100000) (ledger_of [synced_salary])))
       = [salary, week_budget]
   \<and> fst (post_budget True id 3 (daily_request 14285) (ledger_of [salary, week_budget]))
       = Created
   \<and> budgets (snd (post_budget True id 3 (daily_request 14285) (ledger_of [salary, week_budget])))
       = [salary, week_budget, day_budget]"
  by (simp add: post_budget_def allocate_weekly_def new_budget_def validateBudgetHierarchy_def
      weekly_cap_check_def daily_cap_check_def daily_weekly_cap_check_def primary_monthly_def
      first_weekly_def js_or_def set_currentAmount_def weekly_request_def daily_request_def
      ledger_of_def synced_salary_def salary_def week_budget_def day_budget_def)

text \<open>
  C8. The validator accepts an amount exactly when it is positive and within the three
  caps (weekly at most a quarter of the primary monthly baseline, daily at most a 28th of
  it, daily at most a seventh of the weekly amount); every rejection of a positive amount
  carries a hierarchy-cap message. With a primary monthly budget of initial amount 400000:
  a weekly 100000 is valid, a weekly 100001 is rejected with the cap 100000, a daily 14286
  is rejected with the cap 14285, and a daily 14285 is valid beside a weekly budget of
  amount 100000. Budget creation and the amount edit of a non-primary budget both answer
  with the validator's rejection.
\<close>

theorem validateBudgetHierarchy_caps:
  "(validateBudgetHierarchy bs u f a = Valid \<longleftrightarrow>
      a > 0
      \<and> (\<forall>p. f = Weekly \<and> primary_monthly u bs = Some p
             \<longrightarrow> a \<le> js_or (initialAmount p) (js_or (b_amount p) 0) / 4)
      \<and> (\<forall>p. f = Daily \<and> primary_monthly u bs = Some p
             \<longrightarrow> a \<le> js_or (initialAmount p) (js_or (b_amount p) 0) / 28)
      \<and> (\<forall>w. f = Daily \<and> first_weekly u bs = Some w
             \<longrightarrow> a \<le> js_or (b_amount w) (js_or (initialAmount w) 0) / 7))
   \<and> (validateBudgetHierarchy bs u f a = Invalid m \<and> a > 0 \<longrightarrow> is_cap_message m)
   \<and> (primary_monthly u bs = Some p \<and> initialAmount p = 400000 \<longrightarrow>
        validateBudgetHierarchy bs u Weekly 100000 = Valid
        \<and> validateBudgetHierarchy bs u Weekly 100001 = Invalid (MsgWeeklyCap 100000)
        \<and> validateBudgetHierarchy bs u Daily 14286 = Invalid (MsgDailyCap 14285)
        \<and> (first_weekly u bs = Some w \<and> b_amount w = 100000
             \<longrightarrow> validateBudgetHierarchy bs u Daily 14285 = Valid))
   \<and> (findById i (budgets s) = Some b \<and> \<not> isPrimary b \<and> a > 0
        \<and> validateBudgetHierarchy (budgets s) (b_userId b) (b_frequency b) a = Invalid m
        \<longrightarrow> put_budget i name (Some a) s = (HierarchyRejected m, s))
   \<and> (br_amount rq = Some a \<and> br_frequency rq = Some f \<and> \<not> br_isPrimary rq
        \<and> br_name rq \<noteq> [] \<and> a > 0
        \<and> validateBudgetHierarchy (budgets s) (br_userId rq) f a = Invalid m
        \<longrightarrow> post_budget supported env newId rq s = (HierarchyRejected m, s))"
proof -
  have cap: "validateBudgetHierarchy bs u f a = Invalid m \<and> a > 0 \<longrightarrow> is_cap_message m"
    using validate_invalid_message [of bs u f a m] by blast
  have scen: "primary_monthly u bs = Some p \<and> initialAmount p = 400000 \<longrightarrow>
        validateBudgetHierarchy bs u Weekly 100000 = Valid
        \<and> validateBudgetHierarchy bs u Weekly 100001 = Invalid (MsgWeeklyCap 100000)
        \<and> validateBudgetHierarchy bs u Daily 14286 = Invalid (MsgDailyCap 14285)
        \<and> (first_weekly u bs = Some w \<and> b_amount w = 100000
             \<longrightarrow> validateBudgetHierarchy bs u Daily 14285 = Valid)"
    using validate_scenario_weekly validate_scenario_daily by blast
  have put: "findById i (budgets s) = Some b \<and> \<not> isPrimary b \<and> a > 0
        \<and> validateBudgetHierarchy (budgets s) (b_userId b) (b_frequency b) a = Invalid m
        \<longrightarrow> put_budget i name (Some a) s = (HierarchyRejected m, s)"
    using put_budget_revalidates [of i s b a m name] by blast
  have post: "br_amount rq = Some a \<and> br_frequency rq = Some f \<and> \<not> br_isPrimary rq
        \<and> br_name rq \<noteq> [] \<and> a > 0
        \<and> validateBudgetHierarchy (budgets s) (br_userId rq) f a = Invalid m
        \<longrightarrow> post_budget supported env newId rq s = (HierarchyRejected m, s)"
    using post_budget_validates [of rq a f s m supported env newId] by simp
  show ?thesis
    using validate_valid_iff [of bs u f a] cap scen put post by blast
qed

theorem validateBudgetHierarchy_caps_witness:
  "validateBudgetHierarchy [salary, week_budget] 7 Weekly 100000 = Valid
   \<and> put_budget 2 [] (Some 100001) (ledger_of [salary, week_budget])
       = (HierarchyRejected (MsgWeeklyCap 100000), ledger_of [salary, week_budget])
   \<and> validateBudgetHierarchy [salary, week_budget] 7 Daily 14285 = Valid
   \<and> post_budget True (\<lambda>bs. bs) 3 (daily_request 14286) (ledger_of [salary, week_budget])
       = (HierarchyRejected (MsgDailyCap 14285), ledger_of [salary, week_budget])"
proof -
  have p: "primary_monthly 7 [salary, week_budget] = Some salary"
    by (simp add: primary_monthly_def salary_def)
  have w: "first_weekly 7 [salary, week_budget] = Some week_budget"
    by (simp add: first_weekly_def salary_def week_budget_def)
  have f: "findById 2 (budgets (ledger_of [salary, week_budget])) = Some week_budget"
    by (simp add: findById_def ledger_of_def salary_def week_budget_def)
  have i: "initialAmount salary = 400000" "b_amount week_budget = 100000"
    "\<not> isPrimary week_budget" "b_userId week_budget = 7" "b_frequency week_budget = Weekly"
    by (simp_all add: salary_def week_budget_def)
  have r: "br_amount (daily_request 14286) = Some 14286"
    "br_frequency (daily_request 14286) = Some Daily"
    "\<not> br_isPrimary (daily_request 14286)" "br_name (daily_request 14286) \<noteq> []"
    "br_userId (daily_request 14286) = 7"
    by (simp_all add: daily_request_def)
  have b: "budgets (ledger_of [salary, week_budget]) = [salary, week_budget]"
    by (simp add: ledger_of_def)
  note c1 = validateBudgetHierarchy_caps
    [where bs = "[salary, week_budget]" and u = 7 and f = Weekly and a = 100001
       and m = "MsgWeeklyCap 100000" and p = salary and w = week_budget and i = 2
       and s = "ledger_of [salary, week_budget]" and b = week_budget and name = "[]"
       and rq = "weekly_request 100001" and supported = True and env = "\<lambda>bs. bs"
       and newId = 3]
  note c2 = validateBudgetHierarchy_caps
    [where bs = "[salary, week_budget]" and u = 7 and f = Daily and a = 14286
       and m = "MsgDailyCap 14285" and p = salary and w = week_budget and i = 2
       and s = "ledger_of [salary, week_budget]" and b = week_budget and name = "[]"
       and rq = "daily_request 14286" and supported = True and env = "\<lambda>bs. bs"
       and newId = 3]
  show ?thesis
    using c1 c2 p w f i r b by simp
qed

section \<open>The balance invariant\<close>

lemma nonneg_Cons [simp]: "nonneg (b # bs) \<longleftrightarrow> currentAmount b \<ge> 0 \<and> nonneg bs"
  by (simp add: nonneg_def)

lemma nonneg_Nil [simp]: "nonneg []"
  by (simp add: nonneg_def)

lemma nonneg_append [simp]: "nonneg (xs @ ys) \<longleftrightarrow> nonneg xs \<and> nonneg ys"
  by (simp add: nonneg_def)

lemma nonneg_update_first:
  "nonneg bs \<Longrightarrow> (\<And>b. P b \<Longrightarrow> 0 \<le> currentAmount b \<Longrightarrow> 0 \<le> currentAmount (f b))
     \<Longrightarrow> nonneg (update_first P f bs)"
  by (induction bs) auto

text \<open>Each single write to the Budget collection keeps the balances non-negative.\<close>

lemma nonneg_set_currentAmount: "0 \<le> v \<Longrightarrow> nonneg bs \<Longrightarrow> nonneg (set_currentAmount i v bs)"
  by (simp add: set_currentAmount_def nonneg_update_first)

lemma nonneg_inc_currentAmount: "0 \<le> v \<Longrightarrow> nonneg bs \<Longrightarrow> nonneg (inc_currentAmount i v bs)"
  by (simp add: inc_currentAmount_def nonneg_update_first)

lemma nonneg_conditional_decrement:
  "conditional_decrement i amt bs = Some bs' \<Longrightarrow> nonneg bs \<Longrightarrow> nonneg bs'"
  by (auto simp: conditional_decrement_def intro!: nonneg_update_first split: option.splits)

lemma check_cascade_after:
  "check_cascade amt bs = Inr affd \<Longrightarrow> \<forall>a\<in>set affd. 0 \<le> a_after a"
  by (induction bs arbitrary: affd) (auto simp: Let_def split: if_splits sum.splits)

lemma nonneg_apply_affected:
  "\<forall>a\<in>set affd. 0 \<le> a_after a \<Longrightarrow> nonneg bs \<Longrightarrow> nonneg (apply_affected affd bs)"
  unfolding apply_affected_def
  by (induction affd arbitrary: bs) (auto simp: nonneg_set_currentAmount)

lemma nonneg_compensate: "0 \<le> amt \<Longrightarrow> nonneg bs \<Longrightarrow> nonneg (compensate amt updated bs)"
  unfolding compensate_def
  by (induction updated arbitrary: bs) (auto simp: nonneg_inc_currentAmount)

lemma nonneg_apply_conditional_Inl:
  "apply_conditional amt affd updated bs = Inl (bs', upd) \<Longrightarrow> nonneg bs \<Longrightarrow> nonneg bs'"
  by (induction affd arbitrary: bs updated)
     (auto split: option.splits dest: nonneg_conditional_decrement)

lemma nonneg_apply_conditional_Inr:
  "apply_conditional amt affd updated bs = Inr bs' \<Longrightarrow> nonneg bs \<Longrightarrow> nonneg bs'"
  by (induction affd arbitrary: bs updated)
     (auto split: option.splits dest: nonneg_conditional_decrement)

lemma available_figure_nonneg: "0 \<le> available_figure p t"
  by (simp add: available_figure_def Let_def)

lemma nonneg_calculateBudgetsAvailable:
  "nonneg (budgets s) \<Longrightarrow> nonneg (budgets (snd (calculateBudgetsAvailable u d s)))"
  by (auto simp: calculateBudgetsAvailable_def Let_def nonneg_set_currentAmount
        available_figure_nonneg split: option.splits)

lemma calculateBudgetsAvailable_frame [simp]:
  "days (snd (calculateBudgetsAvailable u d s)) = days s"
  "transactions (snd (calculateBudgetsAvailable u d s)) = transactions s"
  "objectives (snd (calculateBudgetsAvailable u d s)) = objectives s"
  "tontines (snd (calculateBudgetsAvailable u d s)) = tontines s"
  by (auto simp: calculateBudgetsAvailable_def Let_def split: option.splits)

lemma budgets_day_rollup:
  "budgets (day_rollup u d s) = budgets (snd (calculateBudgetsAvailable u d s))"
  by (simp add: day_rollup_def Let_def)

lemma nonneg_day_rollup: "nonneg (budgets s) \<Longrightarrow> nonneg (budgets (day_rollup u d s))"
  by (simp add: budgets_day_rollup nonneg_calculateBudgetsAvailable)

lemma nonneg_get_days: "nonneg (budgets s) \<Longrightarrow> nonneg (budgets (get_days d u s))"
  by (auto simp: get_days_def Let_def nonneg_calculateBudgetsAvailable split: option.splits)

lemma nonneg_post_transaction_session:
  "nonneg (budgets s) \<Longrightarrow> nonneg (budgets (snd (post_transaction_session d rq s)))"
  by (auto simp: post_transaction_session_def Let_def
        intro!: nonneg_day_rollup nonneg_apply_affected dest: check_cascade_after
        split: tx_type.splits option.splits sum.splits)

lemma nonneg_post_transaction_fallback:
  assumes "nonneg (budgets s)" "nonneg (env (budgets s))" "0 \<le> rq_amount rq"
  shows "nonneg (budgets (snd (post_transaction_fallback env d rq s)))"
  using assms
  by (auto simp: post_transaction_fallback_def
        intro!: nonneg_day_rollup nonneg_compensate
        dest: nonneg_apply_conditional_Inl nonneg_apply_conditional_Inr
        split: tx_type.splits option.splits sum.splits prod.splits)

lemma nonneg_post_transaction:
  assumes "nonneg (budgets s)" "nonneg (env (budgets s))"
  shows "nonneg (budgets (snd (post_transaction supported env d rq s)))"
  using assms
  by (auto simp: post_transaction_def nonneg_post_transaction_session
      nonneg_post_transaction_fallback)

lemma nonneg_post_budget:
  assumes "nonneg (budgets s)" "nonneg (env (budgets s))"
  shows "nonneg (budgets (snd (post_budget supported env newId rq s)))"
  using assms
  by (auto simp: post_budget_def allocate_weekly_def new_budget_def Let_def
        intro!: nonneg_set_currentAmount dest: nonneg_conditional_decrement
        split: option.splits validation.splits)

lemma nonneg_put_budget:
  assumes "nonneg (budgets s)"
  shows "nonneg (budgets (snd (put_budget i name amt s)))"
  using assms
  by (auto simp: put_budget_def Let_def intro!: nonneg_update_first
        split: option.splits validation.splits)

lemma nonneg_post_allocate:
  assumes "nonneg (budgets s)" "nonneg (env (budgets s))"
  shows "nonneg (budgets (snd (post_allocate supported env d objId rq s)))"
  using assms
  by (auto simp: post_allocate_def
        intro!: nonneg_day_rollup nonneg_compensate nonneg_apply_affected
        dest: check_cascade_after nonneg_apply_conditional_Inl nonneg_apply_conditional_Inr
        split: option.splits sum.splits prod.splits)

lemma nonneg_post_contribute:
  assumes "nonneg (budgets s)"
  shows "nonneg (budgets (snd (post_contribute d tid u amt s)))"
  using assms
  by (auto simp: post_contribute_def Let_def intro!: nonneg_day_rollup split: option.splits)

text \<open>
  C1. Every exposed operation (expense and gain posting in transactional and in fallback
  mode, budget creation and edit, objective allocation, the availability reconciler, the
  lazy Day creation and the tontine contribution) keeps every budget's
  \<open>currentAmount\<close> at or above 0, whatever it answers: if no balance is negative when
  the request arrives, and none is after the writes of the concurrent requests that the
  fallback mode lets in, then none is negative in the store the request leaves, also when
  the request was rejected.
\<close>

theorem currentAmount_never_negative:
  assumes "nonneg (budgets s)" and "nonneg (env (budgets s))"
  shows "nonneg (budgets (snd (handle supported env currentDate rq s)))"
  using assms
  by (cases rq)
     (simp_all add: nonneg_post_transaction nonneg_post_budget nonneg_put_budget
        nonneg_post_allocate nonneg_calculateBudgetsAvailable nonneg_get_days
        nonneg_post_contribute)

lemmas store_defs = findById_def set_currentAmount_def inc_currentAmount_def
  conditional_decrement_def primary_monthly_def first_weekly_def js_or_def js_round_def

lemmas reconcile_defs = sum_amounts_def month_expenses_def available_figure_def
  reconcile_entry_def calculateBudgetsAvailable_def

lemmas day_defs = lastDay_def find_day_def upsert_day_def day_rollup_def get_days_def
  day_is_locked_def

lemmas cascade_defs = cascade_set_def apply_affected_def compensate_def new_transaction_def
  expense_entry_def gain_entry_def post_transaction_session_def post_transaction_fallback_def
  post_transaction_def MAX_SAFE_INTEGER_def

lemmas example_defs = salary_def week_budget_def day_budget_def ledger_of_def
  expense_request_def gain_request_def balance_def

theorem currentAmount_never_negative_witness:
  "nonneg (budgets (ledger_of [salary, week_budget, day_budget]))
   \<and> nonneg (id (budgets (ledger_of [salary, week_budget, day_budget])))
   \<and> nonneg (budgets (snd (handle False id ''2026-01-15''
        (PostTransaction (expense_request 3 14286))
        (ledger_of [salary, week_budget, day_budget]))))"
proof -
  have h: "nonneg (budgets (ledger_of [salary, week_budget, day_budget]))"
    by (simp add: example_defs)
  have h2: "nonneg (id (budgets (ledger_of [salary, week_budget, day_budget])))"
    using h by simp
  show ?thesis
    using h h2 currentAmount_never_negative
      [where s = "ledger_of [salary, week_budget, day_budget]" and env = id, OF h h2]
    by blast
qed

section \<open>Lookups after writes\<close>

lemma find_Some_set: "find P xs = Some x \<Longrightarrow> x \<in> set xs \<and> P x"
  by (induction xs) (auto split: if_splits)

lemma find_id_None:
  "b_id (x::budget) \<notin> b_id ` set xs \<Longrightarrow> find (\<lambda>b. b_id b = b_id x \<and> Q b) xs = None"
  by (induction xs) auto

lemma find_id_None': 
  "b_id (x::budget) \<notin> b_id ` set xs \<Longrightarrow> find (\<lambda>b. b_id b = b_id x) xs = None"
  by (induction xs) auto

lemma ids_update_first [simp]:
  "(\<And>b::budget. b_id (f b) = b_id b) \<Longrightarrow> map b_id (update_first P f bs) = map b_id bs"
  by (induction bs) auto

lemma ids_set_currentAmount [simp]: "map b_id (set_currentAmount i v bs) = map b_id bs"
  by (simp add: set_currentAmount_def)

lemma ids_inc_currentAmount [simp]: "map b_id (inc_currentAmount i v bs) = map b_id bs"
  by (simp add: inc_currentAmount_def)

lemma findById_member:
  "distinct (map b_id (bs::budget list)) \<Longrightarrow> b \<in> set bs \<Longrightarrow> findById (b_id b) bs = Some b"
proof (induction bs)
  case Nil
  then show ?case by simp
next
  case (Cons x xs)
  show ?case
  proof (cases "b = x")
    case True
    then show ?thesis by (simp add: findById_def)
  next
    case False
    then have b: "b \<in> set xs" using Cons.prems by simp
    then have "b_id x \<noteq> b_id b" using Cons.prems(1) by (metis distinct.simps(2) image_eqI list.simps(9) set_map)
    then show ?thesis using Cons b by (simp add: findById_def)
  qed
qed

lemma same_id_same_budget:
  assumes "distinct (map b_id (bs::budget list))" "x \<in> set bs" "y \<in> set bs" "b_id x = b_id y"
  shows "x = y"
proof -
  have a: "findById (b_id x) bs = Some x"
    using assms(1,2) by (rule findById_member)
  have "findById (b_id y) bs = Some y"
    using assms(1,3) by (rule findById_member)
  then have b: "findById (b_id x) bs = Some y"
    by (simp only: assms(4))
  from a b show ?thesis by simp
qed

lemma balance_set_currentAmount:
  "balance i (set_currentAmount j v bs) =
     (if i = j then map_option (\<lambda>_. v) (balance i bs) else balance i bs)"
  by (induction bs) (auto simp: balance_def findById_def set_currentAmount_def)

lemma findById_set_currentAmount_other:
  "i \<noteq> j \<Longrightarrow> findById i (set_currentAmount j v bs) = findById i bs"
  by (induction bs) (auto simp: findById_def set_currentAmount_def)

lemma find_conditional_distinct:
  "distinct (map b_id (bs::budget list)) \<Longrightarrow>
   find (\<lambda>b. b_id b = j \<and> amt \<le> currentAmount b) bs =
     (case find (\<lambda>b. b_id b = j) bs of
        None \<Rightarrow> None
      | Some b \<Rightarrow> if amt \<le> currentAmount b then Some b else None)"
proof (induction bs)
  case Nil
  then show ?case by simp
next
  case (Cons x xs)
  have ih: "find (\<lambda>b. b_id b = j \<and> amt \<le> currentAmount b) xs =
     (case find (\<lambda>b. b_id b = j) xs of
        None \<Rightarrow> None
      | Some b \<Rightarrow> if amt \<le> currentAmount b then Some b else None)"
    using Cons by simp
  show ?case
  proof (cases "b_id x = j")
    case True
    have "find (\<lambda>b. b_id b = b_id x \<and> amt \<le> currentAmount b) xs = None"
      using Cons.prems by (intro find_id_None) simp
    then show ?thesis using True by auto
  next
    case False
    then show ?thesis using ih by simp
  qed
qed

lemma update_conditional_distinct:
  "find (\<lambda>b. b_id b = j) bs = Some (b::budget) \<Longrightarrow> amt \<le> currentAmount b \<Longrightarrow>
   update_first (\<lambda>b. b_id b = j \<and> amt \<le> currentAmount b)
       (\<lambda>b. b\<lparr>currentAmount := currentAmount b + (- amt)\<rparr>) bs =
     update_first (\<lambda>b. b_id b = j) (\<lambda>x. x\<lparr>currentAmount := currentAmount b - amt\<rparr>) bs"
  by (induction bs) (auto split: if_splits)

lemma conditional_decrement_distinct:
  assumes "distinct (map b_id (bs::budget list))"
  shows "conditional_decrement j amt bs =
     (case findById j bs of
        None \<Rightarrow> None
      | Some b \<Rightarrow> if currentAmount b \<ge> amt
                  then Some (set_currentAmount j (currentAmount b - amt) bs) else None)"
proof (cases "find (\<lambda>b. b_id b = j) bs")
  case None
  then show ?thesis
    using find_conditional_distinct [OF assms, of j amt]
    by (simp add: conditional_decrement_def findById_def)
next
  case (Some b)
  show ?thesis
  proof (cases "amt \<le> currentAmount b")
    case True
    then show ?thesis
      using Some find_conditional_distinct [OF assms, of j amt]
        update_conditional_distinct [OF Some True]
      by (simp add: conditional_decrement_def findById_def set_currentAmount_def)
  next
    case False
    then show ?thesis
      using Some find_conditional_distinct [OF assms, of j amt]
      by (simp add: conditional_decrement_def findById_def)
  qed
qed

lemma check_cascade_Inl:
  "check_cascade amt cs = Inl (i, v) \<Longrightarrow>
     \<exists>c\<in>set cs. b_id c = i \<and> v = currentAmount c - amt \<and> v < 0"
  by (induction cs) (auto simp: Let_def split: sum.splits if_splits)

lemma check_cascade_Inr:
  "check_cascade amt cs = Inr affd \<Longrightarrow>
     (\<forall>c\<in>set cs. amt \<le> currentAmount c) \<and> affd = map (cascade_entry amt) cs"
  by (induction cs arbitrary: affd)
     (auto simp: Let_def cascade_entry_def split: sum.splits if_splits)

lemma check_cascade_accepts:
  "\<forall>c\<in>set cs. amt \<le> currentAmount c \<Longrightarrow> check_cascade amt cs = Inr (map (cascade_entry amt) cs)"
  by (induction cs) (auto simp: Let_def cascade_entry_def)

lemma apply_affected_Cons:
  "apply_affected (cascade_entry amt c # es) bs =
     apply_affected es (set_currentAmount (b_id c) (currentAmount c - amt) bs)"
  by (simp add: apply_affected_def cascade_entry_def)

lemma apply_affected_Nil: "apply_affected [] bs = bs"
  by (simp add: apply_affected_def)

lemma balance_apply_affected:
  "distinct (map b_id (cs::budget list)) \<Longrightarrow>
   balance i (apply_affected (map (cascade_entry amt) cs) bs) =
     (case find (\<lambda>c. b_id c = i) cs of
        Some c \<Rightarrow> map_option (\<lambda>_. currentAmount c - amt) (balance i bs)
      | None \<Rightarrow> balance i bs)"
proof (induction cs arbitrary: bs)
  case Nil
  then show ?case by (simp add: apply_affected_Nil)
next
  case (Cons c cs)
  let ?bs1 = "set_currentAmount (b_id c) (currentAmount c - amt) bs"
  have ih: "balance i (apply_affected (map (cascade_entry amt) cs) ?bs1) =
     (case find (\<lambda>c. b_id c = i) cs of
        Some c \<Rightarrow> map_option (\<lambda>_. currentAmount c - amt) (balance i ?bs1)
      | None \<Rightarrow> balance i ?bs1)"
    using Cons.IH [of ?bs1] Cons.prems by simp
  show ?case
  proof (cases "b_id c = i")
    case True
    have "find (\<lambda>x. b_id x = b_id c) cs = None"
      using Cons.prems by (intro find_id_None') simp
    then show ?thesis
      using True ih by (simp add: apply_affected_Cons balance_set_currentAmount)
  next
    case False
    then have ne: "i \<noteq> b_id c" by auto
    have "balance i ?bs1 = balance i bs"
      using ne by (simp add: balance_set_currentAmount)
    then show ?thesis
      using ih False by (simp add: apply_affected_Cons split: option.splits)
  qed
qed

lemma apply_conditional_alone:
  assumes "distinct (map b_id (bs::budget list))" "distinct (map b_id (cs::budget list))"
    and "\<forall>c\<in>set cs. findById (b_id c) bs = Some c \<and> amt \<le> currentAmount c"
  shows "apply_conditional amt (map (cascade_entry amt) cs) upd bs =
           Inr (apply_affected (map (cascade_entry amt) cs) bs)"
  using assms
proof (induction cs arbitrary: bs upd)
  case Nil
  then show ?case by (simp add: apply_affected_Nil)
next
  case (Cons c cs)
  let ?bs1 = "set_currentAmount (b_id c) (currentAmount c - amt) bs"
  have dec: "conditional_decrement (b_id c) amt bs = Some ?bs1"
    using Cons.prems by (simp add: conditional_decrement_distinct)
  have keep: "\<forall>c'\<in>set cs. findById (b_id c') ?bs1 = Some c' \<and> amt \<le> currentAmount c'"
  proof
    fix c' assume c': "c' \<in> set cs"
    have ne: "b_id c' \<noteq> b_id c"
      using Cons.prems(2) c' by (metis distinct.simps(2) image_eqI list.simps(9) set_map)
    show "findById (b_id c') ?bs1 = Some c' \<and> amt \<le> currentAmount c'"
      using Cons.prems(3) c' ne by (simp add: findById_set_currentAmount_other)
  qed
  have d1: "distinct (map b_id ?bs1)" using Cons.prems(1) by simp
  have d2: "distinct (map b_id cs)" using Cons.prems(2) by simp
  have "apply_conditional amt (map (cascade_entry amt) cs) (upd @ [b_id c]) ?bs1 =
          Inr (apply_affected (map (cascade_entry amt) cs) ?bs1)"
    by (rule Cons.IH [OF d1 d2 keep])
  moreover have "a_budgetId (cascade_entry amt c) = b_id c"
    by (simp add: cascade_entry_def)
  ultimately show ?case
    using dec by (simp add: apply_affected_Cons)
qed

lemma findById_Some: "findById i bs = Some t \<Longrightarrow> t \<in> set bs \<and> b_id t = i"
  unfolding findById_def by (drule find_Some_set) simp

lemma first_weekly_Some:
  "first_weekly u bs = Some w \<Longrightarrow> w \<in> set bs \<and> b_userId w = u \<and> b_frequency w = Weekly"
  unfolding first_weekly_def by (drule find_Some_set) simp

lemma primary_monthly_Some:
  "primary_monthly u bs = Some p \<Longrightarrow>
     p \<in> set bs \<and> b_userId p = u \<and> b_frequency p = Monthly \<and> isPrimary p"
  unfolding primary_monthly_def by (drule find_Some_set) simp

lemma cascade_set_cases:
  "cascade_set u t bs = [t]
   \<or> (\<exists>w. b_frequency t = Daily \<and> first_weekly u bs = Some w \<and> cascade_set u t bs = [t, w])
   \<or> (\<exists>p. b_frequency t = Weekly \<and> primary_monthly u bs = Some p \<and> cascade_set u t bs = [t, p])"
  by (cases "b_frequency t"; cases "first_weekly u bs"; cases "primary_monthly u bs")
     (simp_all add: cascade_set_def)

lemma cascade_set_members:
  assumes "findById i bs = Some t"
  shows "set (cascade_set u t bs) \<subseteq> set bs"
  using cascade_set_cases [of u t bs] findById_Some [OF assms]
    first_weekly_Some [of u bs] primary_monthly_Some [of u bs]
  by (elim disjE exE conjE) simp_all

lemma cascade_set_distinct:
  assumes "distinct (map b_id (bs::budget list))" "findById i bs = Some t"
  shows "distinct (map b_id (cascade_set u t bs))"
proof -
  have t: "t \<in> set bs" using findById_Some [OF assms(2)] by simp
  have w: "b_id w \<noteq> b_id t" if "first_weekly u bs = Some w" "b_frequency t = Daily" for w
  proof
    assume e: "b_id w = b_id t"
    have "w \<in> set bs" "b_frequency w = Weekly" using first_weekly_Some [OF that(1)] by simp_all
    then show False using same_id_same_budget [OF assms(1) _ t e] that(2) by simp
  qed
  have p: "b_id p \<noteq> b_id t" if "primary_monthly u bs = Some p" "b_frequency t = Weekly" for p
  proof
    assume e: "b_id p = b_id t"
    have "p \<in> set bs" "b_frequency p = Monthly" using primary_monthly_Some [OF that(1)] by simp_all
    then show False using same_id_same_budget [OF assms(1) _ t e] that(2) by simp
  qed
  show ?thesis
    using cascade_set_cases [of u t bs] w p
    by (elim disjE exE conjE) simp_all
qed

section \<open>Effect of the reconciler, the Day block and the cascade\<close>

lemma sum_amounts_append: "sum_amounts (xs @ [t]) = sum_amounts xs + t_amount t"
  by (simp add: sum_amounts_def)

lemma findById_exists: "(p::budget) \<in> set bs \<Longrightarrow> \<exists>q. findById (b_id p) bs = Some q"
  by (induction bs) (auto simp: findById_def)

lemma balance_calculateBudgetsAvailable:
  "balance i (budgets (snd (calculateBudgetsAvailable u d s))) = balance i (budgets s)
   \<or> (map_option b_id (primary_monthly u (budgets s)) = Some i
      \<and> balance i (budgets (snd (calculateBudgetsAvailable u d s)))
          = Some (fst (calculateBudgetsAvailable u d s)))"
proof (cases "primary_monthly u (budgets s)")
  case None
  then show ?thesis by (simp add: calculateBudgetsAvailable_def)
next
  case (Some p)
  obtain q where q: "findById (b_id p) (budgets s) = Some q"
    using primary_monthly_Some [OF Some] findById_exists by blast
  let ?av = "available_figure p (month_expenses u d (transactions s))"
  show ?thesis
  proof (cases "\<bar>currentAmount p - ?av\<bar> > 1 / 100")
    case False
    then have "snd (calculateBudgetsAvailable u d s) = s"
      using Some by (simp add: calculateBudgetsAvailable_def Let_def)
    then show ?thesis by simp
  next
    case True
    then have b: "budgets (snd (calculateBudgetsAvailable u d s)) =
        set_currentAmount (b_id p) ?av (budgets s)"
      and f: "fst (calculateBudgetsAvailable u d s) = ?av"
      using Some by (simp_all add: calculateBudgetsAvailable_def Let_def)
    have "balance (b_id p) (budgets s) = Some (currentAmount q)"
      using q by (simp add: balance_def)
    then show ?thesis
      using Some by (simp add: b f balance_set_currentAmount)
  qed
qed

lemma fst_calculateBudgetsAvailable:
  "fst (calculateBudgetsAvailable u d s) =
     (case primary_monthly u (budgets s) of
        None \<Rightarrow> 0
      | Some p \<Rightarrow> available_figure p (month_expenses u d (transactions s)))"
  by (simp add: calculateBudgetsAvailable_def Let_def split: option.splits)

lemma find_day_upsert:
  "\<exists>day. find_day u d (upsert_day u d ip ba g e fp ds) = Some day
     \<and> initialPocket day = ip \<and> budgetsAvailable day = ba \<and> gains day = g
     \<and> expenses day = e \<and> finalPocket day = fp
     \<and> locked day = day_is_locked u d ds"
proof (cases "find_day u d ds")
  case None
  then have "find (\<lambda>x. d_userId x = u \<and> d_date x = d) ds = None"
    by (simp add: find_day_def)
  then have "find (\<lambda>x. d_userId x = u \<and> d_date x = d) (ds @ [y]) =
      (if d_userId y = u \<and> d_date y = d then Some y else None)" for y
    by (induction ds) (auto split: if_splits)
  then show ?thesis
    using None by (simp add: upsert_day_def find_day_def day_is_locked_def)
next
  case (Some day0)
  have "find (\<lambda>x. d_userId x = u \<and> d_date x = d) ds = Some day0
    \<Longrightarrow> find (\<lambda>x. d_userId x = u \<and> d_date x = d)
         (update_first (\<lambda>x. d_userId x = u \<and> d_date x = d) f ds) = Some (f day0)"
    if "\<And>x. d_userId (f x) = d_userId x \<and> d_date (f x) = d_date x" for f
    using that by (induction ds) (auto split: if_splits)
  then show ?thesis
    using Some by (simp add: upsert_day_def find_day_def day_is_locked_def)
qed

lemma day_rollup_day:
  "\<exists>day. find_day u d (days (day_rollup u d s)) = Some day
     \<and> initialPocket day = (case lastDay u (days s) of Some l \<Rightarrow> finalPocket l | None \<Rightarrow> 0)
     \<and> budgetsAvailable day = fst (calculateBudgetsAvailable u d s)
     \<and> gains day = sum_amounts (filter (\<lambda>t. t_type t = Gain)
          (filter (\<lambda>t. t_userId t = u \<and> t_date t = d) (transactions s)))
     \<and> expenses day = sum_amounts (filter (\<lambda>t. t_type t = Expense)
          (filter (\<lambda>t. t_userId t = u \<and> t_date t = d) (transactions s)))
     \<and> finalPocket day = initialPocket day + gains day - expenses day
     \<and> locked day = day_is_locked u d (days s)"
proof -
  let ?ip = "case lastDay u (days s) of Some l \<Rightarrow> finalPocket l | None \<Rightarrow> 0"
  let ?g = "sum_amounts (filter (\<lambda>t. t_type t = Gain)
          (filter (\<lambda>t. t_userId t = u \<and> t_date t = d) (transactions s)))"
  let ?e = "sum_amounts (filter (\<lambda>t. t_type t = Expense)
          (filter (\<lambda>t. t_userId t = u \<and> t_date t = d) (transactions s)))"
  have "days (day_rollup u d s) =
      upsert_day u d ?ip (fst (calculateBudgetsAvailable u d s)) ?g ?e (?ip + ?g - ?e) (days s)"
    by (simp add: day_rollup_def Let_def)
  then show ?thesis
    using find_day_upsert [of u d ?ip "fst (calculateBudgetsAvailable u d s)" ?g ?e
        "?ip + ?g - ?e" "days s"]
    by auto
qed

lemma day_rollup_frame:
  "transactions (day_rollup u d s) = transactions s"
  "objectives (day_rollup u d s) = objectives s"
  "tontines (day_rollup u d s) = tontines s"
  by (simp_all add: day_rollup_def Let_def)

lemma journal_calculateBudgetsAvailable:
  "journal (snd (calculateBudgetsAvailable u d s)) = journal s
   \<or> (\<exists>p. primary_monthly u (budgets s) = Some p
        \<and> journal (snd (calculateBudgetsAvailable u d s)) = journal s @
            [reconcile_entry u (b_id p) (currentAmount p) (fst (calculateBudgetsAvailable u d s))])"
  by (auto simp: calculateBudgetsAvailable_def Let_def split: option.splits)

lemma journal_day_rollup:
  "journal (day_rollup u d s) = journal (snd (calculateBudgetsAvailable u d s))"
  by (simp add: day_rollup_def Let_def)

lemma find_id_update_first:
  "(\<And>x::budget. P (f x) = P x) \<Longrightarrow> (\<And>x. b_id (f x) = b_id x) \<Longrightarrow>
   map_option b_id (find P (update_first Q f bs)) = map_option b_id (find P bs)"
  by (induction bs) auto

lemma primary_id_set_currentAmount:
  "map_option b_id (primary_monthly u (set_currentAmount j v bs))
     = map_option b_id (primary_monthly u bs)"
  unfolding primary_monthly_def set_currentAmount_def
  by (rule find_id_update_first) simp_all

lemma primary_id_apply_affected:
  "map_option b_id (primary_monthly u (apply_affected affd bs))
     = map_option b_id (primary_monthly u bs)"
  unfolding apply_affected_def
  by (induction affd arbitrary: bs) (simp_all add: primary_id_set_currentAmount)

lemma store_update_order:
  "(s::store)\<lparr>budgets := b, transactions := a, journal := c\<rparr> =
     s\<lparr>transactions := a, budgets := b, journal := c\<rparr>"
  by (cases s) simp

lemma post_transaction_session_expense:
  assumes "rq_type rq = Expense" "findById (rq_budgetId rq) (budgets s) = Some t"
  shows "post_transaction_session d rq s =
    (case check_cascade (rq_amount rq) (cascade_set (rq_userId rq) t (budgets s)) of
       Inl (bid, v) \<Rightarrow> (NegativeBalanceRejected bid v, s)
     | Inr affd \<Rightarrow>
         (Created, day_rollup (rq_userId rq) d (expense_written d rq t ''cascade_expense'' s)))"
proof (cases "check_cascade (rq_amount rq) (cascade_set (rq_userId rq) t (budgets s))")
  case (Inl e)
  then show ?thesis
    using assms by (simp add: post_transaction_session_def Let_def split: prod.splits)
next
  case (Inr affd)
  have affd: "affd = map (cascade_entry (rq_amount rq)) (cascade_set (rq_userId rq) t (budgets s))"
    using check_cascade_Inr [OF Inr] by simp
  show ?thesis
    using assms Inr
    by (simp add: post_transaction_session_def Let_def expense_written_def affd)
qed

lemma post_transaction_fallback_expense:
  assumes "rq_type rq = Expense" "findById (rq_budgetId rq) (budgets s) = Some t"
    and "distinct (map b_id (budgets s))"
  shows "post_transaction_fallback id d rq s =
    (case check_cascade (rq_amount rq) (cascade_set (rq_userId rq) t (budgets s)) of
       Inl (bid, v) \<Rightarrow> (NegativeBalanceRejected bid v, s)
     | Inr affd \<Rightarrow>
         (Created,
          day_rollup (rq_userId rq) d (expense_written d rq t ''cascade_expense_fallback'' s)))"
proof (cases "check_cascade (rq_amount rq) (cascade_set (rq_userId rq) t (budgets s))")
  case (Inl e)
  then show ?thesis
    using assms by (simp add: post_transaction_fallback_def split: prod.splits)
next
  case (Inr affd)
  let ?cs = "cascade_set (rq_userId rq) t (budgets s)"
  have affd: "affd = map (cascade_entry (rq_amount rq)) ?cs"
    and ge: "\<forall>c\<in>set ?cs. rq_amount rq \<le> currentAmount c"
    using check_cascade_Inr [OF Inr] by simp_all
  have mem: "\<forall>c\<in>set ?cs. findById (b_id c) (budgets s) = Some c \<and> rq_amount rq \<le> currentAmount c"
    using ge cascade_set_members [OF assms(2), of "rq_userId rq"] findById_member [OF assms(3)]
    by blast
  have "apply_conditional (rq_amount rq) affd [] (budgets s) =
      Inr (apply_affected affd (budgets s))"
    unfolding affd
    by (rule apply_conditional_alone [OF assms(3) cascade_set_distinct [OF assms(3) assms(2)] mem])
  then show ?thesis
    using assms Inr
    by (simp add: post_transaction_fallback_def expense_written_def affd store_update_order)
qed

lemma balance_cascade:
  assumes d: "distinct (map b_id (bs::budget list))" and t: "findById tid bs = Some t"
  shows "balance i (apply_affected (map (cascade_entry amt) (cascade_set u t bs)) bs) =
           cascade_value amt (cascade_set u t bs) bs i"
proof -
  let ?cs = "cascade_set u t bs"
  have dc: "distinct (map b_id ?cs)" by (rule cascade_set_distinct [OF d t])
  note b = balance_apply_affected [OF dc, of i amt bs]
  show ?thesis
  proof (cases "find (\<lambda>c. b_id c = i) ?cs")
    case None
    then have "i \<notin> b_id ` set ?cs" by (auto simp: find_None_iff)
    then show ?thesis using b None by (simp add: cascade_value_def)
  next
    case (Some c)
    then have c: "c \<in> set ?cs" "b_id c = i" using find_Some_set [OF Some] by simp_all
    then have "c \<in> set bs" using cascade_set_members [OF t, of u] by blast
    then have "findById (b_id c) bs = Some c" by (rule findById_member [OF d])
    then have "balance i bs = Some (currentAmount c)" using c(2) by (simp add: balance_def)
    moreover have "i \<in> b_id ` set ?cs" using c by blast
    ultimately show ?thesis using b Some by (simp add: cascade_value_def)
  qed
qed

lemma post_transaction_expense:
  assumes "rq_type rq = Expense" "findById (rq_budgetId rq) (budgets s) = Some t"
    and "distinct (map b_id (budgets s))"
    and "0 < rq_amount rq" "rq_amount rq \<le> MAX_SAFE_INTEGER"
    and "rq_comment rq \<noteq> []" "length (rq_comment rq) \<le> 500"
    and "\<not> day_is_locked (rq_userId rq) d (days s)"
  shows "post_transaction supported id d rq s =
    (case check_cascade (rq_amount rq) (cascade_set (rq_userId rq) t (budgets s)) of
       Inl (bid, v) \<Rightarrow> (NegativeBalanceRejected bid v, s)
     | Inr affd \<Rightarrow>
         (Created,
          day_rollup (rq_userId rq) d
            (expense_written d rq t
               (if supported then ''cascade_expense'' else ''cascade_expense_fallback'') s)))"
  using assms post_transaction_session_expense [OF assms(1,2), of d]
    post_transaction_fallback_expense [OF assms(1,2,3), of d]
  by (simp add: post_transaction_def)

lemma post_transaction_Created_valid:
  assumes "post_transaction supported env d rq s = (Created, s')"
  shows "0 < rq_amount rq \<and> rq_amount rq \<le> MAX_SAFE_INTEGER
         \<and> rq_comment rq \<noteq> [] \<and> length (rq_comment rq) \<le> 500
         \<and> \<not> day_is_locked (rq_userId rq) d (days s)"
  using assms by (auto simp: post_transaction_def split: if_splits)

lemma expense_Created_store:
  assumes d: "distinct (map b_id (budgets s))"
    and r: "post_transaction supported id currentDate rq s = (Created, s')"
    and e: "rq_type rq = Expense"
    and t: "findById (rq_budgetId rq) (budgets s) = Some t"
  shows "\<exists>rule. s' = day_rollup (rq_userId rq) currentDate (expense_written currentDate rq t rule s)"
    and "\<forall>c\<in>set (cascade_set (rq_userId rq) t (budgets s)). rq_amount rq \<le> currentAmount c"
proof -
  note v = post_transaction_Created_valid [OF r]
  have eq: "post_transaction supported id currentDate rq s =
    (case check_cascade (rq_amount rq) (cascade_set (rq_userId rq) t (budgets s)) of
       Inl (bid, v) \<Rightarrow> (NegativeBalanceRejected bid v, s)
     | Inr affd \<Rightarrow>
         (Created,
          day_rollup (rq_userId rq) currentDate
            (expense_written currentDate rq t
               (if supported then ''cascade_expense'' else ''cascade_expense_fallback'') s)))"
    using post_transaction_expense [OF e t d] v by blast
  show "\<exists>rule. s' = day_rollup (rq_userId rq) currentDate (expense_written currentDate rq t rule s)"
    using r unfolding eq by (auto split: sum.splits prod.splits)
  show "\<forall>c\<in>set (cascade_set (rq_userId rq) t (budgets s)). rq_amount rq \<le> currentAmount c"
    using r check_cascade_Inr unfolding eq by (auto split: sum.splits prod.splits)
qed

lemma expense_balances:
  assumes d: "distinct (map b_id (budgets s))"
    and r: "post_transaction supported id currentDate rq s = (Created, s')"
    and e: "rq_type rq = Expense"
    and t: "findById (rq_budgetId rq) (budgets s) = Some t"
  shows "\<exists>day. find_day (rq_userId rq) currentDate (days s') = Some day \<and>
     (\<forall>i. balance i (budgets s') =
            cascade_value (rq_amount rq) (cascade_set (rq_userId rq) t (budgets s)) (budgets s) i
          \<or> (map_option b_id (primary_monthly (rq_userId rq) (budgets s)) = Some i
             \<and> balance i (budgets s') = Some (budgetsAvailable day)))"
proof -
  obtain rule where s': "s' = day_rollup (rq_userId rq) currentDate (expense_written currentDate rq t rule s)"
    using expense_Created_store(1) [OF d r e t] by blast
  let ?W = "expense_written currentDate rq t rule s"
  let ?u = "rq_userId rq"
  obtain day where day: "find_day ?u currentDate (days s') = Some day"
    "budgetsAvailable day = fst (calculateBudgetsAvailable ?u currentDate ?W)"
    using day_rollup_day [of ?u currentDate ?W] unfolding s' by blast
  have bW: "budgets ?W = apply_affected
          (map (cascade_entry (rq_amount rq)) (cascade_set ?u t (budgets s))) (budgets s)"
    by (simp add: expense_written_def)
  have pW: "map_option b_id (primary_monthly ?u (budgets ?W))
      = map_option b_id (primary_monthly ?u (budgets s))"
    unfolding bW by (rule primary_id_apply_affected)
  have cW: "balance i (budgets ?W) =
      cascade_value (rq_amount rq) (cascade_set ?u t (budgets s)) (budgets s) i" for i
    unfolding bW by (rule balance_cascade [OF d t])
  have bs': "budgets s' = budgets (snd (calculateBudgetsAvailable ?u currentDate ?W))"
    unfolding s' by (rule budgets_day_rollup)
  have "balance i (budgets s') =
            cascade_value (rq_amount rq) (cascade_set ?u t (budgets s)) (budgets s) i
          \<or> (map_option b_id (primary_monthly ?u (budgets s)) = Some i
             \<and> balance i (budgets s') = Some (budgetsAvailable day))" for i
    using balance_calculateBudgetsAvailable [of i ?u currentDate ?W]
    unfolding bs' pW cW day(2) by blast
  then show ?thesis using day(1) by blast
qed

section \<open>Cascade symmetry\<close>

lemma not_primary_id:
  assumes "distinct (map b_id (bs::budget list))" "x \<in> set bs" "b_frequency x \<noteq> Monthly"
  shows "map_option b_id (primary_monthly u bs) \<noteq> Some (b_id x)"
proof
  assume "map_option b_id (primary_monthly u bs) = Some (b_id x)"
  then obtain p where p: "primary_monthly u bs = Some p" "b_id p = b_id x" by auto
  have "p \<in> set bs" "b_frequency p = Monthly" using primary_monthly_Some [OF p(1)] by simp_all
  then show False using same_id_same_budget [OF assms(1) _ assms(2) p(2)] assms(3) by simp
qed

lemma cascade_value_member:
  assumes "distinct (map b_id (bs::budget list))" "c \<in> set cs" "set cs \<subseteq> set bs"
  shows "cascade_value amt cs bs (b_id c) = Some (currentAmount c - amt)"
proof -
  have "findById (b_id c) bs = Some c" using assms by (intro findById_member) auto
  then show ?thesis using assms(2) by (simp add: cascade_value_def balance_def)
qed

text \<open>
  C2 (as the code has it). For an accepted expense of amount X posted by a request that
  runs alone, in either mode: against a daily budget, the daily budget and the user's
  weekly budget each end exactly X lower, and no monthly budget is in the cascade set;
  against a weekly budget, the weekly budget ends exactly X lower and the cascade set is
  the weekly budget and the primary monthly budget, which ends X lower unless the
  availability reconciler of the request's own Day block overwrites it with the figure it
  stores as the Day's \<open>budgetsAvailable\<close>. Every budget outside the cascade set keeps
  its balance, except that the user's primary monthly budget may be overwritten by that
  reconciler in the same way.
\<close>

theorem cascade_expense_effect:
  assumes d: "distinct (map b_id (budgets s))"
    and r: "post_transaction supported id currentDate rq s = (Created, s')"
    and e: "rq_type rq = Expense"
    and t: "findById (rq_budgetId rq) (budgets s) = Some t"
  shows "\<exists>day. find_day (rq_userId rq) currentDate (days s') = Some day
    \<and> (b_frequency t = Daily \<longrightarrow>
          balance (b_id t) (budgets s') = Some (currentAmount t - rq_amount rq)
        \<and> (\<forall>w. first_weekly (rq_userId rq) (budgets s) = Some w \<longrightarrow>
              balance (b_id w) (budgets s') = Some (currentAmount w - rq_amount rq))
        \<and> (\<forall>c\<in>set (cascade_set (rq_userId rq) t (budgets s)). b_frequency c \<noteq> Monthly))
    \<and> (b_frequency t = Weekly \<longrightarrow>
          balance (b_id t) (budgets s') = Some (currentAmount t - rq_amount rq)
        \<and> (\<forall>p. primary_monthly (rq_userId rq) (budgets s) = Some p \<longrightarrow>
              cascade_set (rq_userId rq) t (budgets s) = [t, p]
            \<and> (balance (b_id p) (budgets s') = Some (currentAmount p - rq_amount rq)
               \<or> balance (b_id p) (budgets s') = Some (budgetsAvailable day))))
    \<and> (\<forall>i. i \<notin> b_id ` set (cascade_set (rq_userId rq) t (budgets s)) \<longrightarrow>
          balance i (budgets s') = balance i (budgets s)
        \<or> (map_option b_id (primary_monthly (rq_userId rq) (budgets s)) = Some i
           \<and> balance i (budgets s') = Some (budgetsAvailable day)))"
proof -
  let ?u = "rq_userId rq" and ?bs = "budgets s" and ?X = "rq_amount rq"
  let ?cs = "cascade_set ?u t ?bs"
  obtain day where day: "find_day ?u currentDate (days s') = Some day"
    and bal: "\<And>i. balance i (budgets s') = cascade_value ?X ?cs ?bs i
          \<or> (map_option b_id (primary_monthly ?u ?bs) = Some i
             \<and> balance i (budgets s') = Some (budgetsAvailable day))"
    using expense_balances [OF d r e t] by blast
  have sub: "set ?cs \<subseteq> set ?bs" by (rule cascade_set_members [OF t])
  have tin: "t \<in> set ?cs" by (simp add: cascade_set_def)
  have tbs: "t \<in> set ?bs" using sub tin by blast
  have cv: "cascade_value ?X ?cs ?bs (b_id c) = Some (currentAmount c - ?X)" if "c \<in> set ?cs" for c
    using cascade_value_member [OF d that sub] .
  have target: "balance (b_id t) (budgets s') = Some (currentAmount t - ?X)"
    if "b_frequency t \<noteq> Monthly"
    using bal [of "b_id t"] cv [OF tin] not_primary_id [OF d tbs that, of ?u] by auto
  have daily: "balance (b_id w) (budgets s') = Some (currentAmount w - ?X)"
    if "b_frequency t = Daily" "first_weekly ?u ?bs = Some w" for w
  proof -
    have w: "w \<in> set ?bs" "b_frequency w = Weekly" using first_weekly_Some [OF that(2)] by simp_all
    have "w \<in> set ?cs" using that by (simp add: cascade_set_def)
    then show ?thesis
      using bal [of "b_id w"] cv [of w] not_primary_id [OF d w(1), of ?u] w(2) by auto
  qed
  have nomonthly: "\<forall>c\<in>set ?cs. b_frequency c \<noteq> Monthly" if "b_frequency t = Daily"
    using that first_weekly_Some [of ?u ?bs]
    by (auto simp: cascade_set_def split: option.splits)
  have weekly: "?cs = [t, p] \<and> (balance (b_id p) (budgets s') = Some (currentAmount p - ?X)
               \<or> balance (b_id p) (budgets s') = Some (budgetsAvailable day))"
    if "b_frequency t = Weekly" "primary_monthly ?u ?bs = Some p" for p
  proof -
    have cs: "?cs = [t, p]" using that by (simp add: cascade_set_def)
    then have "p \<in> set ?cs" by simp
    then show ?thesis using bal [of "b_id p"] cv [of p] cs by auto
  qed
  have other: "balance i (budgets s') = balance i ?bs
        \<or> (map_option b_id (primary_monthly ?u ?bs) = Some i
           \<and> balance i (budgets s') = Some (budgetsAvailable day))"
    if "i \<notin> b_id ` set ?cs" for i
    using bal [of i] that by (simp add: cascade_value_def)
  show ?thesis
    using day target daily nomonthly weekly other by (intro exI [of _ day]) auto
qed

lemmas eval_defs = store_defs reconcile_defs day_defs cascade_defs example_defs Let_def

theorem cascade_expense_effect_counterexample:
  "fst (post_transaction True id ''2026-01-15'' (expense_request 3 100)
          (ledger_of [salary, week_budget, day_budget])) = Created
   \<and> b_frequency day_budget = Daily \<and> b_frequency salary = Monthly
   \<and> balance 1 (budgets (ledger_of [salary, week_budget, day_budget])) = Some 300000
   \<and> balance 1 (budgets (snd (post_transaction True id ''2026-01-15'' (expense_request 3 100)
          (ledger_of [salary, week_budget, day_budget])))) = Some 399900"
  by (simp add: eval_defs)

theorem cascade_expense_effect_witness:
  "distinct (map b_id (budgets (ledger_of [salary, week_budget, day_budget])))
   \<and> fst (post_transaction False id ''2026-01-15'' (expense_request 3 100)
          (ledger_of [salary, week_budget, day_budget])) = Created
   \<and> balance 3 (budgets (snd (post_transaction False id ''2026-01-15'' (expense_request 3 100)
          (ledger_of [salary, week_budget, day_budget])))) = Some 14185
   \<and> balance 2 (budgets (snd (post_transaction False id ''2026-01-15'' (expense_request 3 100)
          (ledger_of [salary, week_budget, day_budget])))) = Some 99900"
proof -
  let ?L = "ledger_of [salary, week_budget, day_budget]"
  let ?rq = "expense_request 3 100"
  let ?s' = "snd (post_transaction False id ''2026-01-15'' ?rq ?L)"
  have d: "distinct (map b_id (budgets ?L))"
    by (simp add: example_defs)
  have c: "fst (post_transaction False id ''2026-01-15'' ?rq ?L) = Created"
    by (simp add: eval_defs)
  then have r: "post_transaction False id ''2026-01-15'' ?rq ?L = (Created, ?s')"
    by (simp add: prod_eq_iff)
  have e: "rq_type ?rq = Expense"
    by (simp add: expense_request_def)
  have t: "findById (rq_budgetId ?rq) (budgets ?L) = Some day_budget"
    by (simp add: example_defs findById_def)
  have w: "first_weekly (rq_userId ?rq) (budgets ?L) = Some week_budget"
    by (simp add: example_defs first_weekly_def)
  have f: "b_frequency day_budget = Daily" "b_id day_budget = 3" "b_id week_budget = 2"
    "currentAmount day_budget - rq_amount ?rq = 14185"
    "currentAmount week_budget - rq_amount ?rq = 99900"
    by (simp_all add: example_defs)
  from cascade_expense_effect [OF d r e t]
  have "balance (b_id day_budget) (budgets ?s') = Some (currentAmount day_budget - rq_amount ?rq)
      \<and> balance (b_id week_budget) (budgets ?s') = Some (currentAmount week_budget - rq_amount ?rq)"
    using f(1) w by blast
  then show ?thesis
    using d c by (simp only: f)
qed

section \<open>Ceiling of an expense\<close>

lemma unsafe_amount_rejected:
  assumes "MAX_SAFE_INTEGER < rq_amount rq"
  shows "post_transaction supported env currentDate rq s = (BadRequest, s)"
  using assms by (simp add: post_transaction_def)

lemma over_ceiling_rejected:
  assumes t: "findById (rq_budgetId rq) (budgets s) = Some t"
    and e: "rq_type rq = Expense"
    and c: "rq_comment rq \<noteq> []" "length (rq_comment rq) \<le> 500"
    and l: "\<not> day_is_locked (rq_userId rq) currentDate (days s)"
    and a: "rq_amount rq = currentAmount t + 1" "0 \<le> currentAmount t"
    and m: "rq_amount rq \<le> MAX_SAFE_INTEGER"
  shows "post_transaction supported env currentDate rq s =
           (NegativeBalanceRejected (b_id t) (- 1), s)"
proof -
  have "check_cascade (rq_amount rq) (cascade_set (rq_userId rq) t (budgets s)) =
      Inl (b_id t, - 1)"
    using a by (simp add: cascade_set_def Let_def)
  then show ?thesis
    using assms
    by (simp add: post_transaction_def post_transaction_session_def
        post_transaction_fallback_def Let_def)
qed

lemma exact_ceiling_iff:
  assumes t: "findById (rq_budgetId rq) (budgets s) = Some t"
    and e: "rq_type rq = Expense"
    and c: "rq_comment rq \<noteq> []" "length (rq_comment rq) \<le> 500"
    and l: "\<not> day_is_locked (rq_userId rq) currentDate (days s)"
    and a: "rq_amount rq = currentAmount t" "0 < currentAmount t"
    and d: "distinct (map b_id (budgets s))"
    and m: "rq_amount rq \<le> MAX_SAFE_INTEGER"
  shows "fst (post_transaction supported id currentDate rq s) = Created \<longleftrightarrow>
           (\<forall>c\<in>set (cascade_set (rq_userId rq) t (budgets s)). currentAmount t \<le> currentAmount c)"
proof -
  let ?cs = "cascade_set (rq_userId rq) t (budgets s)"
  have pos: "0 < rq_amount rq" using a by simp
  note eq = post_transaction_expense [OF e t d pos m c l, of supported]
  show ?thesis
  proof (cases "check_cascade (rq_amount rq) ?cs")
    case (Inl e)
    obtain i v where iv: "e = (i, v)" by (cases e)
    have "\<exists>c\<in>set ?cs. currentAmount c - rq_amount rq < 0"
      using check_cascade_Inl [of "rq_amount rq" ?cs i v] Inl iv by auto
    then obtain c0 where c0: "c0 \<in> set ?cs" "currentAmount c0 - rq_amount rq < 0"
      by blast
    have "\<not> currentAmount t \<le> currentAmount c0"
      using c0(2) a(1) by simp
    then have "\<not> (\<forall>c\<in>set ?cs. currentAmount t \<le> currentAmount c)"
      using c0(1) by blast
    moreover have "fst (post_transaction supported id currentDate rq s) \<noteq> Created"
      unfolding eq Inl iv by simp
    ultimately show ?thesis by blast
  next
    case (Inr affd)
    have "\<forall>c\<in>set ?cs. currentAmount t \<le> currentAmount c"
      using check_cascade_Inr [OF Inr] a(1) by simp
    moreover have "fst (post_transaction supported id currentDate rq s) = Created"
      unfolding eq Inr by simp
    ultimately show ?thesis by blast
  qed
qed

lemma exact_ceiling_zero:
  assumes t: "findById (rq_budgetId rq) (budgets s) = Some t"
    and e: "rq_type rq = Expense"
    and a: "rq_amount rq = currentAmount t"
    and d: "distinct (map b_id (budgets s))"
    and cr: "fst (post_transaction supported id currentDate rq s) = Created"
    and np: "map_option b_id (primary_monthly (rq_userId rq) (budgets s)) \<noteq> Some (b_id t)"
  shows "balance (b_id t) (budgets (snd (post_transaction supported id currentDate rq s)))
               = Some 0"
proof -
  let ?cs = "cascade_set (rq_userId rq) t (budgets s)"
  let ?s' = "snd (post_transaction supported id currentDate rq s)"
  have r: "post_transaction supported id currentDate rq s = (Created, ?s')"
    using cr by (simp add: prod_eq_iff)
  obtain day where day: "find_day (rq_userId rq) currentDate (days ?s') = Some day"
    and bal: "\<And>i. balance i (budgets ?s') = cascade_value (rq_amount rq) ?cs (budgets s) i
      \<or> (map_option b_id (primary_monthly (rq_userId rq) (budgets s)) = Some i
         \<and> balance i (budgets ?s') = Some (budgetsAvailable day))"
    using expense_balances [OF d r e t] by blast
  have tin: "t \<in> set ?cs" by (simp add: cascade_set_def)
  have "cascade_value (rq_amount rq) ?cs (budgets s) (b_id t) = Some (currentAmount t - rq_amount rq)"
    using cascade_value_member [OF d tin cascade_set_members [OF t]] .
  then have "cascade_value (rq_amount rq) ?cs (budgets s) (b_id t) = Some 0"
    by (simp add: a)
  then show ?thesis
    using bal [of "b_id t"] np by auto
qed

text \<open>
  C3 (as the code has it). Against an existing budget, on a day that is not locked and
  with a well-formed comment: an expense of \<open>currentAmount + 1\<close> is rejected in either
  mode and whatever concurrent requests do, with status 400 and the store left as it
  was; the answer is the negative-balance validation error naming that budget when the
  amount is within the safe-number range of the request schema (at most \<open>2^53 - 1\<close>).
  Any amount above that range is answered with the schema's validation error (status 400
  as well), the store left as it was. An expense of exactly \<open>currentAmount\<close> (when
  positive and within the safe-number range, posted alone) is accepted exactly when
  every budget of the cascade set, the immediate parent included, holds at least that
  amount; it then leaves the target at exactly 0, provided the target is not the user's
  primary monthly budget (whose balance the reconciler of the same request may
  overwrite).
\<close>

theorem expense_ceiling:
  assumes "findById (rq_budgetId rq) (budgets s) = Some t"
    and "rq_type rq = Expense"
    and "rq_comment rq \<noteq> []" and "length (rq_comment rq) \<le> 500"
    and "\<not> day_is_locked (rq_userId rq) currentDate (days s)"
  shows "(rq_amount rq = currentAmount t + 1 \<and> 0 \<le> currentAmount t \<longrightarrow>
            http_status (fst (post_transaction supported env currentDate rq s)) = 400
          \<and> snd (post_transaction supported env currentDate rq s) = s
          \<and> (rq_amount rq \<le> MAX_SAFE_INTEGER \<longrightarrow>
               post_transaction supported env currentDate rq s
                 = (NegativeBalanceRejected (b_id t) (- 1), s)))
       \<and> (MAX_SAFE_INTEGER < rq_amount rq \<longrightarrow>
            post_transaction supported env currentDate rq s = (BadRequest, s))
       \<and> (rq_amount rq = currentAmount t \<and> 0 < currentAmount t
            \<and> rq_amount rq \<le> MAX_SAFE_INTEGER
            \<and> distinct (map b_id (budgets s)) \<longrightarrow>
            (fst (post_transaction supported id currentDate rq s) = Created \<longleftrightarrow>
               (\<forall>c\<in>set (cascade_set (rq_userId rq) t (budgets s)).
                   currentAmount t \<le> currentAmount c))
          \<and> (fst (post_transaction supported id currentDate rq s) = Created
              \<and> map_option b_id (primary_monthly (rq_userId rq) (budgets s)) \<noteq> Some (b_id t)
              \<longrightarrow> balance (b_id t)
                    (budgets (snd (post_transaction supported id currentDate rq s))) = Some 0))"
proof -
  let ?p = "post_transaction supported env currentDate rq s"
  have safe: "?p = (NegativeBalanceRejected (b_id t) (- 1), s)"
    if "rq_amount rq = currentAmount t + 1" "0 \<le> currentAmount t"
      "rq_amount rq \<le> MAX_SAFE_INTEGER"
    using over_ceiling_rejected [OF assms that, of supported env] .
  have unsafe: "?p = (BadRequest, s)" if "MAX_SAFE_INTEGER < rq_amount rq"
    using unsafe_amount_rejected [OF that, of supported env currentDate s] .
  have over: "http_status (fst ?p) = 400 \<and> snd ?p = s"
    if a: "rq_amount rq = currentAmount t + 1" "0 \<le> currentAmount t"
  proof (cases "rq_amount rq \<le> MAX_SAFE_INTEGER")
    case True
    show ?thesis unfolding safe [OF a True] by simp
  next
    case False
    then have "MAX_SAFE_INTEGER < rq_amount rq" by simp
    then have "?p = (BadRequest, s)" by (rule unsafe)
    then show ?thesis by simp
  qed
  have iff: "fst (post_transaction supported id currentDate rq s) = Created \<longleftrightarrow>
               (\<forall>c\<in>set (cascade_set (rq_userId rq) t (budgets s)).
                   currentAmount t \<le> currentAmount c)"
    if "rq_amount rq = currentAmount t" "0 < currentAmount t" "distinct (map b_id (budgets s))"
      "rq_amount rq \<le> MAX_SAFE_INTEGER"
    using exact_ceiling_iff [OF assms that] .
  have zero: "balance (b_id t)
        (budgets (snd (post_transaction supported id currentDate rq s))) = Some 0"
    if "rq_amount rq = currentAmount t" "distinct (map b_id (budgets s))"
      "fst (post_transaction supported id currentDate rq s) = Created"
      "map_option b_id (primary_monthly (rq_userId rq) (budgets s)) \<noteq> Some (b_id t)"
    using exact_ceiling_zero [OF assms(1,2) that] .
  show ?thesis
    using safe unsafe over iff zero by blast
qed

theorem expense_ceiling_counterexample:
  "findById 3 (budgets (ledger_of [salary, week_low, day_budget])) = Some day_budget
   \<and> currentAmount day_budget = 14285
   \<and> post_transaction True id ''2026-01-15'' (expense_request 3 14285)
        (ledger_of [salary, week_low, day_budget])
      = (NegativeBalanceRejected 2 (- 13285), ledger_of [salary, week_low, day_budget])"
  by (simp add: eval_defs week_low_def)

theorem expense_ceiling_witness:
  "post_transaction False id ''2026-01-15'' (expense_request 3 14286)
        (ledger_of [salary, week_budget, day_budget])
      = (NegativeBalanceRejected 3 (- 1), ledger_of [salary, week_budget, day_budget])
   \<and> fst (post_transaction False id ''2026-01-15'' (expense_request 3 14285)
        (ledger_of [salary, week_budget, day_budget])) = Created
   \<and> balance 3 (budgets (snd (post_transaction False id ''2026-01-15'' (expense_request 3 14285)
        (ledger_of [salary, week_budget, day_budget])))) = Some 0
   \<and> post_transaction False id ''2026-01-15'' (expense_request 4 9007199254740992)
        (ledger_of [vault])
      = (BadRequest, ledger_of [vault])"
proof -
  let ?L = "ledger_of [salary, week_budget, day_budget]"
  let ?V = "ledger_of [vault]" and ?big = "expense_request 4 9007199254740992"
  have tv: "findById (rq_budgetId ?big) (budgets ?V) = Some vault"
    by (simp add: vault_def ledger_of_def expense_request_def findById_def)
  have lv: "\<not> day_is_locked (rq_userId ?big) ''2026-01-15'' (days ?V)"
    by (simp add: ledger_of_def day_is_locked_def find_day_def)
  have fv: "rq_amount ?big = currentAmount vault + 1" "0 \<le> currentAmount vault"
    "MAX_SAFE_INTEGER < rq_amount ?big"
    by (simp_all add: vault_def expense_request_def MAX_SAFE_INTEGER_def)
  have ev: "rq_type ?big = Expense"
    by (simp add: expense_request_def)
  have cv: "rq_comment ?big \<noteq> []" "length (rq_comment ?big) \<le> 500"
    by (simp_all add: expense_request_def)
  note unsafe = expense_ceiling [OF tv ev cv lv, of False id]
  have t: "findById (rq_budgetId (expense_request 3 a)) (budgets ?L) = Some day_budget" for a
    by (simp add: example_defs findById_def)
  have e: "rq_type (expense_request 3 a) = Expense" for a
    by (simp add: expense_request_def)
  have c: "rq_comment (expense_request 3 a) \<noteq> []" "length (rq_comment (expense_request 3 a)) \<le> 500"
    for a by (simp_all add: expense_request_def)
  have l: "\<not> day_is_locked (rq_userId (expense_request 3 a)) ''2026-01-15'' (days ?L)" for a
    by (simp add: example_defs day_is_locked_def find_day_def)
  have f: "rq_amount (expense_request 3 14286) = currentAmount day_budget + 1"
    "rq_amount (expense_request 3 14285) = currentAmount day_budget"
    "0 \<le> currentAmount day_budget" "0 < currentAmount day_budget" "b_id day_budget = 3"
    "distinct (map b_id (budgets ?L))"
    "rq_amount (expense_request 3 14286) \<le> MAX_SAFE_INTEGER"
    "rq_amount (expense_request 3 14285) \<le> MAX_SAFE_INTEGER"
    by (simp_all add: example_defs MAX_SAFE_INTEGER_def)
  have cs: "\<forall>c\<in>set (cascade_set (rq_userId (expense_request 3 14285)) day_budget (budgets ?L)).
      currentAmount day_budget \<le> currentAmount c"
    by (simp add: example_defs cascade_set_def first_weekly_def)
  have np: "map_option b_id (primary_monthly (rq_userId (expense_request 3 14285)) (budgets ?L))
      \<noteq> Some (b_id day_budget)"
    by (simp add: example_defs primary_monthly_def)
  note over = expense_ceiling [OF t e c l, of 14286 False id]
  note exact = expense_ceiling [OF t e c l, of 14285 False id]
  have "post_transaction False id ''2026-01-15'' ?big ?V = (BadRequest, ?V)"
    using unsafe fv by blast
  then show ?thesis
    using over exact f cs np by simp
qed

section \<open>Compensation in fallback mode\<close>

lemma inc_currentAmount_commute:
  "inc_currentAmount i v (inc_currentAmount j w bs) =
     inc_currentAmount j w (inc_currentAmount i v bs)"
  by (induction bs) (auto simp: inc_currentAmount_def)

lemma compensate_Nil: "compensate amt [] bs = bs"
  by (simp add: compensate_def)

lemma compensate_snoc:
  "compensate amt (upd @ [i]) bs = inc_currentAmount i amt (compensate amt upd bs)"
  by (simp add: compensate_def)

lemma compensate_inc:
  "compensate amt upd (inc_currentAmount i amt bs) = inc_currentAmount i amt (compensate amt upd bs)"
proof (induction upd arbitrary: bs)
  case Nil
  then show ?case by (simp add: compensate_def)
next
  case (Cons j upd)
  have "compensate amt (j # upd) (inc_currentAmount i amt bs) =
      compensate amt upd (inc_currentAmount j amt (inc_currentAmount i amt bs))"
    by (simp add: compensate_def)
  also have "\<dots> = compensate amt upd (inc_currentAmount i amt (inc_currentAmount j amt bs))"
    by (simp only: inc_currentAmount_commute)
  also have "\<dots> = inc_currentAmount i amt (compensate amt upd (inc_currentAmount j amt bs))"
    by (rule Cons.IH)
  also have "\<dots> = inc_currentAmount i amt (compensate amt (j # upd) bs)"
    by (simp add: compensate_def)
  finally show ?case .
qed

lemma inc_after_set:
  "findById i bs = Some b \<Longrightarrow>
   inc_currentAmount i amt (set_currentAmount i (currentAmount b - amt) bs) = bs"
  by (induction bs) (auto simp: findById_def inc_currentAmount_def set_currentAmount_def)

lemma inc_after_conditional_decrement:
  assumes "distinct (map b_id (bs::budget list))" "conditional_decrement i amt bs = Some bs1"
  shows "inc_currentAmount i amt bs1 = bs" and "distinct (map b_id bs1)"
proof -
  obtain b where b: "findById i bs = Some b"
    and bs1: "bs1 = set_currentAmount i (currentAmount b - amt) bs"
    using assms(2) unfolding conditional_decrement_distinct [OF assms(1)]
    by (auto split: option.splits if_splits)
  show "inc_currentAmount i amt bs1 = bs"
    unfolding bs1 by (rule inc_after_set [OF b])
  show "distinct (map b_id bs1)"
    unfolding bs1 using assms(1) by simp
qed

lemma compensate_undoes:
  assumes "distinct (map b_id (bs::budget list))"
    and "apply_conditional amt affd upd bs = Inl (bs', upd')"
  shows "compensate amt upd' bs' = compensate amt upd bs"
  using assms
proof (induction affd arbitrary: upd bs)
  case Nil
  then show ?case by simp
next
  case (Cons a rest)
  show ?case
  proof (cases "conditional_decrement (a_budgetId a) amt bs")
    case None
    then show ?thesis using Cons.prems(2) by simp
  next
    case (Some bs1)
    note u = inc_after_conditional_decrement [OF Cons.prems(1) Some]
    have "apply_conditional amt rest (upd @ [a_budgetId a]) bs1 = Inl (bs', upd')"
      using Cons.prems(2) Some by simp
    then have "compensate amt upd' bs' = compensate amt (upd @ [a_budgetId a]) bs1"
      by (rule Cons.IH [OF u(2)])
    also have "\<dots> = inc_currentAmount (a_budgetId a) amt (compensate amt upd bs1)"
      by (rule compensate_snoc)
    also have "\<dots> = compensate amt upd (inc_currentAmount (a_budgetId a) amt bs1)"
      by (rule compensate_inc [symmetric])
    also have "\<dots> = compensate amt upd bs"
      by (simp only: u(1))
    finally show ?thesis .
  qed
qed

text \<open>
  C5. Fallback mode, expense posted through \<open>POST /api/transactions\<close> with a request
  that passes the schema (a positive amount within the safe-number range, a well-formed
  comment) on a day that is not locked: when the snapshot check has passed and one of the conditional per-budget updates then finds no
  matching document (concurrent writes \<open>env\<close> landed in between), the compensation
  adds the amount back to every budget this request had already decremented, so that the
  Budget collection is exactly what the concurrent writers left; no Transaction and no
  JournalEntry is written; the answer is the concurrency conflict, status 409, and the
  negative-balance rejection is a different answer, status 400.
\<close>

theorem fallback_conflict_compensated:
  assumes "0 < rq_amount rq" and "rq_amount rq \<le> MAX_SAFE_INTEGER"
    and "rq_comment rq \<noteq> []" and "length (rq_comment rq) \<le> 500"
    and "\<not> day_is_locked (rq_userId rq) currentDate (days s)"
    and "rq_type rq = Expense"
    and "findById (rq_budgetId rq) (budgets s) = Some t"
    and "check_cascade (rq_amount rq) (cascade_set (rq_userId rq) t (budgets s)) = Inr affd"
    and "distinct (map b_id (env (budgets s)))"
    and "apply_conditional (rq_amount rq) affd [] (env (budgets s)) = Inl (bs', updated)"
  shows "post_transaction False env currentDate rq s
           = (ConcurrencyConflict, s\<lparr>budgets := env (budgets s)\<rparr>)
       \<and> compensate (rq_amount rq) updated bs' = env (budgets s)
       \<and> transactions (snd (post_transaction False env currentDate rq s)) = transactions s
       \<and> journal (snd (post_transaction False env currentDate rq s)) = journal s
       \<and> http_status (fst (post_transaction False env currentDate rq s)) = 409
       \<and> http_status (NegativeBalanceRejected bid v) = 400"
proof -
  have c: "compensate (rq_amount rq) updated bs' = env (budgets s)"
    using compensate_undoes [OF assms(9,10)] by (simp add: compensate_Nil)
  have "post_transaction False env currentDate rq s
           = (ConcurrencyConflict, s\<lparr>budgets := env (budgets s)\<rparr>)"
    using assms c by (simp add: post_transaction_def post_transaction_fallback_def)
  then show ?thesis using c by simp
qed

theorem fallback_conflict_compensated_witness:
  "apply_conditional 100
      [cascade_entry 100 day_budget, cascade_entry 100 week_budget] []
      (set_currentAmount 2 50 [salary, week_budget, day_budget])
     = Inl ([salary, week_budget\<lparr>currentAmount := 50\<rparr>, day_budget\<lparr>currentAmount := 14185\<rparr>], [3])
   \<and> post_transaction False (set_currentAmount 2 50) ''2026-01-15'' (expense_request 3 100)
        (ledger_of [salary, week_budget, day_budget])
      = (ConcurrencyConflict,
         ledger_of [salary, week_budget\<lparr>currentAmount := 50\<rparr>, day_budget])"
proof -
  let ?L = "ledger_of [salary, week_budget, day_budget]"
  let ?rq = "expense_request 3 100"
  have v: "0 < rq_amount ?rq" "rq_amount ?rq \<le> MAX_SAFE_INTEGER"
    "rq_comment ?rq \<noteq> []" "length (rq_comment ?rq) \<le> 500"
    "rq_type ?rq = Expense"
    by (simp_all add: expense_request_def MAX_SAFE_INTEGER_def)
  have l: "\<not> day_is_locked (rq_userId ?rq) ''2026-01-15'' (days ?L)"
    by (simp add: example_defs day_is_locked_def find_day_def)
  have t: "findById (rq_budgetId ?rq) (budgets ?L) = Some day_budget"
    by (simp add: example_defs findById_def)
  have k: "check_cascade (rq_amount ?rq) (cascade_set (rq_userId ?rq) day_budget (budgets ?L))
      = Inr [cascade_entry 100 day_budget, cascade_entry 100 week_budget]"
    by (simp add: example_defs cascade_set_def first_weekly_def cascade_entry_def Let_def)
  have d: "distinct (map b_id (set_currentAmount 2 50 (budgets ?L)))"
    by (simp add: example_defs)
  have a: "apply_conditional (rq_amount ?rq)
      [cascade_entry 100 day_budget, cascade_entry 100 week_budget] []
      (set_currentAmount 2 50 (budgets ?L))
     = Inl ([salary, week_budget\<lparr>currentAmount := 50\<rparr>, day_budget\<lparr>currentAmount := 14185\<rparr>], [3])"
    by (simp add: example_defs cascade_entry_def store_defs)
  have e: "?L\<lparr>budgets := set_currentAmount 2 50 (budgets ?L)\<rparr>
      = ledger_of [salary, week_budget\<lparr>currentAmount := 50\<rparr>, day_budget]"
    by (simp add: example_defs store_defs)
  have a': "apply_conditional 100
      [cascade_entry 100 day_budget, cascade_entry 100 week_budget] []
      (set_currentAmount 2 50 [salary, week_budget, day_budget])
     = Inl ([salary, week_budget\<lparr>currentAmount := 50\<rparr>, day_budget\<lparr>currentAmount := 14185\<rparr>], [3])"
    using a by (simp add: expense_request_def ledger_of_def)
  from fallback_conflict_compensated
    [where env = "set_currentAmount 2 50" and s = ?L and rq = ?rq, OF v(1,2,3,4) l v(5) t k d a]
  have "post_transaction False (set_currentAmount 2 50) ''2026-01-15'' ?rq ?L
      = (ConcurrencyConflict, ?L\<lparr>budgets := set_currentAmount 2 50 (budgets ?L)\<rparr>)"
    by blast
  then show ?thesis
    using a' by (simp only: e) 
qed

section \<open>Gain posting\<close>

lemma post_transaction_gain:
  assumes "0 < rq_amount rq" "rq_amount rq \<le> MAX_SAFE_INTEGER"
    and "rq_comment rq \<noteq> []" "length (rq_comment rq) \<le> 500"
    and "\<not> day_is_locked (rq_userId rq) d (days s)" and "rq_type rq = Gain"
  shows "post_transaction supported env d rq s =
           (Created, day_rollup (rq_userId rq) d (gain_written d rq s))"
  using assms
  by (simp add: post_transaction_def post_transaction_session_def post_transaction_fallback_def
      gain_written_def Let_def)

lemma month_expenses_gain:
  "t_type t = Gain \<Longrightarrow> month_expenses u d (txs @ [t]) = month_expenses u d txs"
  by (simp add: month_expenses_def Let_def)

lemma take_take_length: "take (length (take n d)) d = take n d"
  by (simp add: min_def)

lemma month_expenses_expense:
  "t_type t = Expense \<Longrightarrow> t_userId t = u \<Longrightarrow> t_date t = d \<Longrightarrow>
     month_expenses u d (txs @ [t]) = month_expenses u d txs + t_amount t"
  using take_take_length [of 7 d]
  by (simp add: month_expenses_def Let_def sum_amounts_append del: length_take)

lemma today_sum_append:
  "t_userId t = u \<Longrightarrow> t_date t = d \<Longrightarrow>
   today_sum ty u d (txs @ [t]) = today_sum ty u d txs + (if t_type t = ty then t_amount t else 0)"
  by (simp add: today_sum_def sum_amounts_append)

text \<open>
  C6 (as the code has it). A gain posting that passes validation (a positive amount
  within the safe-number range of the schema, a well-formed comment) on an unlocked day is
  answered \<open>Created\<close> in either mode; it appends one gain Transaction and one
  JournalEntry with \<open>txType = gain\<close>, \<open>ruleApplied = gain_to_savings\<close> and an empty
  affected list; the Day of the date has \<open>gains\<close> equal to the day's earlier gains plus
  the amount. The posting itself writes no budget: every budget keeps its balance, the
  weekly budget (the pocket-money figure) in particular, except that the availability
  reconciler run by the Day block may overwrite the primary monthly budget with its
  figure (the baseline minus the month's expenses, which the gain does not enter), and
  then appends its own adjustment entry.
\<close>

theorem gain_posting_effect:
  assumes "0 < rq_amount rq" and "rq_amount rq \<le> MAX_SAFE_INTEGER"
    and "rq_comment rq \<noteq> []" and "length (rq_comment rq) \<le> 500"
    and "\<not> day_is_locked (rq_userId rq) currentDate (days s)" and "rq_type rq = Gain"
    and "post_transaction supported env currentDate rq s = (r, s')"
  shows "r = Created
    \<and> transactions s' = transactions s @ [new_transaction currentDate rq]
    \<and> t_type (new_transaction currentDate rq) = Gain
    \<and> txType (gain_entry rq) = JGain \<and> ruleApplied (gain_entry rq) = ''gain_to_savings''
    \<and> affected (gain_entry rq) = []
    \<and> (\<exists>day. find_day (rq_userId rq) currentDate (days s') = Some day
          \<and> gains day = today_sum Gain (rq_userId rq) currentDate (transactions s) + rq_amount rq
          \<and> budgetsAvailable day =
               (case primary_monthly (rq_userId rq) (budgets s) of
                  None \<Rightarrow> 0
                | Some p \<Rightarrow> available_figure p
                             (month_expenses (rq_userId rq) currentDate (transactions s)))
          \<and> (journal s' = journal s @ [gain_entry rq]
              \<or> (\<exists>p. primary_monthly (rq_userId rq) (budgets s) = Some p
                    \<and> journal s' = journal s @
                         [gain_entry rq,
                          reconcile_entry (rq_userId rq) (b_id p) (currentAmount p)
                            (budgetsAvailable day)]))
          \<and> (\<forall>i. balance i (budgets s') = balance i (budgets s)
                \<or> (map_option b_id (primary_monthly (rq_userId rq) (budgets s)) = Some i
                   \<and> balance i (budgets s') = Some (budgetsAvailable day)))
          \<and> (\<forall>w. distinct (map b_id (budgets s))
                   \<and> first_weekly (rq_userId rq) (budgets s) = Some w
                \<longrightarrow> balance (b_id w) (budgets s') = Some (currentAmount w)))"
proof -
  let ?u = "rq_userId rq" and ?W = "gain_written currentDate rq s"
  have rs: "r = Created" "s' = day_rollup ?u currentDate ?W"
    using post_transaction_gain [OF assms(1-6), of supported env] assms(7) by simp_all
  have W: "budgets ?W = budgets s" "days ?W = days s"
    "transactions ?W = transactions s @ [new_transaction currentDate rq]"
    "journal ?W = journal s @ [gain_entry rq]"
    by (simp_all add: gain_written_def)
  have tx: "t_type (new_transaction currentDate rq) = Gain"
    "t_userId (new_transaction currentDate rq) = ?u"
    "t_date (new_transaction currentDate rq) = currentDate"
    "t_amount (new_transaction currentDate rq) = rq_amount rq"
    using assms(6) by (simp_all add: new_transaction_def)
  obtain day where day: "find_day ?u currentDate (days s') = Some day"
    and bA: "budgetsAvailable day = fst (calculateBudgetsAvailable ?u currentDate ?W)"
    and g: "gains day = today_sum Gain ?u currentDate (transactions ?W)"
    using day_rollup_day [of ?u currentDate ?W] unfolding rs(2) today_sum_def by blast
  have g': "gains day = today_sum Gain ?u currentDate (transactions s) + rq_amount rq"
    unfolding g W(3) using tx by (simp add: today_sum_append)
  have bA': "budgetsAvailable day =
               (case primary_monthly ?u (budgets s) of
                  None \<Rightarrow> 0
                | Some p \<Rightarrow> available_figure p (month_expenses ?u currentDate (transactions s)))"
    unfolding bA fst_calculateBudgetsAvailable W(1) W(3) month_expenses_gain [OF tx(1)] ..
  have j: "journal s' = journal s @ [gain_entry rq]
              \<or> (\<exists>p. primary_monthly ?u (budgets s) = Some p
                    \<and> journal s' = journal s @
                         [gain_entry rq,
                          reconcile_entry ?u (b_id p) (currentAmount p) (budgetsAvailable day)])"
    using journal_calculateBudgetsAvailable [of ?u currentDate ?W]
    unfolding rs(2) journal_day_rollup W(1) W(4) bA by auto
  have b: "balance i (budgets s') = balance i (budgets s)
                \<or> (map_option b_id (primary_monthly ?u (budgets s)) = Some i
                   \<and> balance i (budgets s') = Some (budgetsAvailable day))" for i
    using balance_calculateBudgetsAvailable [of i ?u currentDate ?W]
    unfolding rs(2) budgets_day_rollup W(1) bA .
  have w: "balance (b_id w) (budgets s') = Some (currentAmount w)"
    if "distinct (map b_id (budgets s))" "first_weekly ?u (budgets s) = Some w" for w
  proof -
    have m: "w \<in> set (budgets s)" "b_frequency w = Weekly"
      using first_weekly_Some [OF that(2)] by simp_all
    have "balance (b_id w) (budgets s) = Some (currentAmount w)"
      using findById_member [OF that(1) m(1)] by (simp add: balance_def)
    moreover have "map_option b_id (primary_monthly ?u (budgets s)) \<noteq> Some (b_id w)"
      using not_primary_id [OF that(1) m(1)] m(2) by simp
    ultimately show ?thesis using b [of "b_id w"] by auto
  qed
  have t: "transactions s' = transactions s @ [new_transaction currentDate rq]"
    unfolding rs(2) by (simp add: day_rollup_frame W(3))
  have e: "txType (gain_entry rq) = JGain" "ruleApplied (gain_entry rq) = ''gain_to_savings''"
    "affected (gain_entry rq) = []"
    by (simp_all add: gain_entry_def)
  have "\<exists>day. find_day ?u currentDate (days s') = Some day
          \<and> gains day = today_sum Gain ?u currentDate (transactions s) + rq_amount rq
          \<and> budgetsAvailable day =
               (case primary_monthly ?u (budgets s) of
                  None \<Rightarrow> 0
                | Some p \<Rightarrow> available_figure p (month_expenses ?u currentDate (transactions s)))
          \<and> (journal s' = journal s @ [gain_entry rq]
              \<or> (\<exists>p. primary_monthly ?u (budgets s) = Some p
                    \<and> journal s' = journal s @
                         [gain_entry rq,
                          reconcile_entry ?u (b_id p) (currentAmount p) (budgetsAvailable day)]))
          \<and> (\<forall>i. balance i (budgets s') = balance i (budgets s)
                \<or> (map_option b_id (primary_monthly ?u (budgets s)) = Some i
                   \<and> balance i (budgets s') = Some (budgetsAvailable day)))
          \<and> (\<forall>w. distinct (map b_id (budgets s)) \<and> first_weekly ?u (budgets s) = Some w
                \<longrightarrow> balance (b_id w) (budgets s') = Some (currentAmount w))"
    using day g' bA' j b w by (intro exI [of _ day]) blast
  then show ?thesis
    using rs(1) t tx(1) e by simp
qed

theorem gain_posting_effect_counterexample:
  "fst (post_transaction True id ''2026-01-15'' (gain_request 3 500)
          (ledger_of [salary, week_budget, day_budget])) = Created
   \<and> balance 1 (budgets (ledger_of [salary, week_budget, day_budget])) = Some 300000
   \<and> balance 1 (budgets (snd (post_transaction True id ''2026-01-15'' (gain_request 3 500)
          (ledger_of [salary, week_budget, day_budget])))) = Some 400000"
  by (simp add: eval_defs)

theorem gain_posting_effect_witness:
  "fst (post_transaction False id ''2026-01-15'' (gain_request 3 500)
          (ledger_of [salary, week_budget, day_budget])) = Created
   \<and> transactions (snd (post_transaction False id ''2026-01-15'' (gain_request 3 500)
          (ledger_of [salary, week_budget, day_budget])))
       = [new_transaction ''2026-01-15'' (gain_request 3 500)]
   \<and> balance 2 (budgets (snd (post_transaction False id ''2026-01-15'' (gain_request 3 500)
          (ledger_of [salary, week_budget, day_budget])))) = Some 100000"
proof -
  let ?L = "ledger_of [salary, week_budget, day_budget]"
  let ?rq = "gain_request 3 500"
  let ?p = "post_transaction False id ''2026-01-15'' ?rq ?L"
  have v: "0 < rq_amount ?rq" "rq_amount ?rq \<le> MAX_SAFE_INTEGER"
    "rq_comment ?rq \<noteq> []" "length (rq_comment ?rq) \<le> 500"
    by (simp_all add: gain_request_def MAX_SAFE_INTEGER_def)
  have l: "\<not> day_is_locked (rq_userId ?rq) ''2026-01-15'' (days ?L)"
    by (simp add: example_defs day_is_locked_def find_day_def)
  have g: "rq_type ?rq = Gain"
    by (simp add: gain_request_def)
  have p: "?p = (fst ?p, snd ?p)"
    by simp
  have d: "distinct (map b_id (budgets ?L))"
    by (simp add: example_defs)
  have w: "first_weekly (rq_userId ?rq) (budgets ?L) = Some week_budget"
    by (simp add: example_defs first_weekly_def)
  have f: "b_id week_budget = 2" "currentAmount week_budget = 100000" "transactions ?L = []"
    by (simp_all add: example_defs)
  from gain_posting_effect [OF v l g p]
  have "fst ?p = Created
    \<and> transactions (snd ?p) = transactions ?L @ [new_transaction ''2026-01-15'' ?rq]
    \<and> balance (b_id week_budget) (budgets (snd ?p)) = Some (currentAmount week_budget)"
    using d w by blast
  then show ?thesis
    by (simp only: f append_Nil)
qed

section \<open>Availability reconciliation\<close>

lemma sum_amounts_sum_list: "sum_amounts txs = sum_list (map t_amount txs)"
proof -
  have "foldl (\<lambda>acc t. acc + t_amount t) a txs = a + sum_list (map t_amount txs)" for a
    by (induction txs arbitrary: a) simp_all
  then show ?thesis by (simp add: sum_amounts_def)
qed

lemma js_round_int: "js_round (real_of_int k) = real_of_int k"
proof -
  have "\<lfloor>real_of_int k + 1 / 2\<rfloor> = k" by linarith
  then show ?thesis by (simp add: js_round_def)
qed

lemma available_exact:
  assumes "initialAmount p \<noteq> 0" "T \<le> initialAmount p"
    and "(initialAmount p - T) * 100 = real_of_int k"
  shows "available_figure p T = initialAmount p - T"
proof -
  have "js_round ((initialAmount p - T) * 100) / 100 = initialAmount p - T"
    unfolding assms(3) js_round_int using assms(3) by simp
  then show ?thesis
    using assms(1,2) by (simp add: available_figure_def js_or_def)
qed

lemma reconciler_fires:
  assumes "primary_monthly u (budgets s) = Some p"
    and "\<bar>currentAmount p - fst (calculateBudgetsAvailable u d s)\<bar> > 1 / 100"
  shows "snd (calculateBudgetsAvailable u d s)
            = s\<lparr>budgets := set_currentAmount (b_id p) (fst (calculateBudgetsAvailable u d s))
                              (budgets s),
                 journal := journal s @
                   [reconcile_entry u (b_id p) (currentAmount p)
                      (fst (calculateBudgetsAvailable u d s))]\<rparr>"
    and "balance (b_id p) (budgets (snd (calculateBudgetsAvailable u d s)))
            = Some (fst (calculateBudgetsAvailable u d s))"
proof -
  let ?av = "available_figure p (month_expenses u d (transactions s))"
  have f: "fst (calculateBudgetsAvailable u d s) = ?av"
    using assms(1) by (simp add: fst_calculateBudgetsAvailable)
  have gt: "\<bar>currentAmount p - ?av\<bar> > 1 / 100"
    using assms(2) unfolding f .
  show eq: "snd (calculateBudgetsAvailable u d s)
            = s\<lparr>budgets := set_currentAmount (b_id p) (fst (calculateBudgetsAvailable u d s))
                              (budgets s),
                 journal := journal s @
                   [reconcile_entry u (b_id p) (currentAmount p)
                      (fst (calculateBudgetsAvailable u d s))]\<rparr>"
    unfolding f using assms(1) gt by (simp add: calculateBudgetsAvailable_def Let_def)
  obtain q where q: "findById (b_id p) (budgets s) = Some q"
    using primary_monthly_Some [OF assms(1)] findById_exists by blast
  then have "balance (b_id p) (budgets s) = Some (currentAmount q)"
    by (simp add: balance_def)
  then show "balance (b_id p) (budgets (snd (calculateBudgetsAvailable u d s)))
            = Some (fst (calculateBudgetsAvailable u d s))"
    unfolding eq by (simp add: balance_set_currentAmount)
qed

lemma reconciler_quiet:
  assumes "primary_monthly u (budgets s) = Some p"
    and "\<not> \<bar>currentAmount p - fst (calculateBudgetsAvailable u d s)\<bar> > 1 / 100"
  shows "snd (calculateBudgetsAvailable u d s) = s"
proof -
  let ?av = "available_figure p (month_expenses u d (transactions s))"
  have f: "fst (calculateBudgetsAvailable u d s) = ?av"
    using assms(1) by (simp add: fst_calculateBudgetsAvailable)
  have "\<not> \<bar>currentAmount p - ?av\<bar> > 1 / 100"
    using assms(2) unfolding f .
  then show ?thesis
    using assms(1) by (simp add: calculateBudgetsAvailable_def Let_def)
qed

text \<open>
  C7 (as the code has it). For a user with a primary monthly budget, the availability
  reconciler returns \<open>max 0\<close> of the baseline minus the sum of the user's expense
  transactions dated in the \<open>YYYY-MM\<close> of the current date, rounded to cents; the
  baseline is \<open>initialAmount\<close> when that is not 0. The figure is never negative, and it
  is exactly \<open>initialAmount\<close> minus that sum whenever the sum does not exceed the baseline
  and the difference is a whole number of cents. When the figure differs from the stored
  \<open>currentAmount\<close> by more than 0.01 the reconciler overwrites \<open>currentAmount\<close> with
  it and appends one JournalEntry of type adjustment, rule
  \<open>reconcile_primary_current_amount\<close>, recording the balance before and after; otherwise
  it leaves the store as it is.
\<close>

theorem reconciler_effect:
  assumes "primary_monthly u (budgets s) = Some p"
  shows "fst (calculateBudgetsAvailable u d s)
           = available_figure p (month_expenses u d (transactions s))
    \<and> month_expenses u d (transactions s)
         = sum_list (map t_amount
             (filter (\<lambda>t. t_userId t = u \<and> t_type t = Expense
                          \<and> take (length (take 7 d)) (t_date t) = take 7 d) (transactions s)))
    \<and> 0 \<le> fst (calculateBudgetsAvailable u d s)
    \<and> (initialAmount p \<noteq> 0 \<longrightarrow>
          fst (calculateBudgetsAvailable u d s)
            = max 0 (js_round ((initialAmount p - month_expenses u d (transactions s)) * 100) / 100))
    \<and> (initialAmount p \<noteq> 0 \<and> month_expenses u d (transactions s) \<le> initialAmount p
          \<and> (initialAmount p - month_expenses u d (transactions s)) * 100 = real_of_int k
        \<longrightarrow> fst (calculateBudgetsAvailable u d s)
              = initialAmount p - month_expenses u d (transactions s))
    \<and> (\<bar>currentAmount p - fst (calculateBudgetsAvailable u d s)\<bar> > 1 / 100 \<longrightarrow>
          snd (calculateBudgetsAvailable u d s)
            = s\<lparr>budgets := set_currentAmount (b_id p) (fst (calculateBudgetsAvailable u d s))
                              (budgets s),
                 journal := journal s @
                   [reconcile_entry u (b_id p) (currentAmount p)
                      (fst (calculateBudgetsAvailable u d s))]\<rparr>
        \<and> balance (b_id p) (budgets (snd (calculateBudgetsAvailable u d s)))
            = Some (fst (calculateBudgetsAvailable u d s)))
    \<and> (\<not> \<bar>currentAmount p - fst (calculateBudgetsAvailable u d s)\<bar> > 1 / 100 \<longrightarrow>
          snd (calculateBudgetsAvailable u d s) = s)
    \<and> txType (reconcile_entry u (b_id p) bef aft) = JAdjustment
    \<and> ruleApplied (reconcile_entry u (b_id p) bef aft) = ''reconcile_primary_current_amount''
    \<and> affected (reconcile_entry u (b_id p) bef aft)
         = [\<lparr>a_budgetId = b_id p, a_before = bef, a_after = aft\<rparr>]"
proof -
  let ?T = "month_expenses u d (transactions s)"
  have f: "fst (calculateBudgetsAvailable u d s) = available_figure p ?T"
    using assms by (simp add: fst_calculateBudgetsAvailable)
  have m: "?T = sum_list (map t_amount
             (filter (\<lambda>t. t_userId t = u \<and> t_type t = Expense
                          \<and> take (length (take 7 d)) (t_date t) = take 7 d) (transactions s)))"
    by (simp add: month_expenses_def Let_def sum_amounts_sum_list del: length_take)
  have n: "0 \<le> fst (calculateBudgetsAvailable u d s)"
    unfolding f by (rule available_figure_nonneg)
  have i: "fst (calculateBudgetsAvailable u d s)
            = max 0 (js_round ((initialAmount p - ?T) * 100) / 100)" if "initialAmount p \<noteq> 0"
    unfolding f using that by (simp add: available_figure_def js_or_def)
  have x: "fst (calculateBudgetsAvailable u d s) = initialAmount p - ?T"
    if "initialAmount p \<noteq> 0" "?T \<le> initialAmount p"
      "(initialAmount p - ?T) * 100 = real_of_int k"
    unfolding f using that by (rule available_exact)
  have e: "txType (reconcile_entry u (b_id p) bef aft) = JAdjustment"
    "ruleApplied (reconcile_entry u (b_id p) bef aft) = ''reconcile_primary_current_amount''"
    "affected (reconcile_entry u (b_id p) bef aft)
         = [\<lparr>a_budgetId = b_id p, a_before = bef, a_after = aft\<rparr>]"
    by (simp_all add: reconcile_entry_def)
  show ?thesis
    using f m n i x reconciler_fires [OF assms, of d] reconciler_quiet [OF assms, of d] e
    by (intro conjI impI) (blast+)?
qed

theorem reconciler_effect_counterexample:
  "primary_monthly 7 (budgets overspent_ledger) = Some small_salary
   \<and> initialAmount small_salary
        - month_expenses 7 ''2026-01-15'' (transactions overspent_ledger) = - 4000
   \<and> fst (calculateBudgetsAvailable 7 ''2026-01-15'' overspent_ledger) = 0"
  by (simp add: overspent_ledger_def small_salary_def side_budget_def store_defs reconcile_defs
      Let_def)

theorem reconciler_effect_witness:
  "primary_monthly 7 (budgets (ledger_of [salary, week_budget, day_budget])) = Some salary
   \<and> fst (calculateBudgetsAvailable 7 ''2026-01-15''
        (ledger_of [salary, week_budget, day_budget])) = 400000
   \<and> balance 1 (budgets (snd (calculateBudgetsAvailable 7 ''2026-01-15''
        (ledger_of [salary, week_budget, day_budget])))) = Some 400000"
proof -
  let ?L = "ledger_of [salary, week_budget, day_budget]"
  have p: "primary_monthly 7 (budgets ?L) = Some salary"
    by (simp add: example_defs primary_monthly_def)
  have t: "month_expenses 7 ''2026-01-15'' (transactions ?L) = 0"
    by (simp add: example_defs month_expenses_def sum_amounts_def)
  have i: "initialAmount salary \<noteq> 0"
    "month_expenses 7 ''2026-01-15'' (transactions ?L) \<le> initialAmount salary"
    "(initialAmount salary - month_expenses 7 ''2026-01-15'' (transactions ?L)) * 100
       = real_of_int 40000000"
    "initialAmount salary - month_expenses 7 ''2026-01-15'' (transactions ?L) = 400000"
    "b_id salary = 1" "currentAmount salary = 300000"
    unfolding t by (simp_all add: salary_def)
  note r = reconciler_effect [OF p, where d = "''2026-01-15''" and k = 40000000
      and bef = 0 and aft = 0]
  have x: "fst (calculateBudgetsAvailable 7 ''2026-01-15'' ?L)
      = initialAmount salary - month_expenses 7 ''2026-01-15'' (transactions ?L)"
    using r i(1,2,3) by blast
  have f: "fst (calculateBudgetsAvailable 7 ''2026-01-15'' ?L) = 400000"
    unfolding x by (rule i(4))
  have g: "\<bar>currentAmount salary - fst (calculateBudgetsAvailable 7 ''2026-01-15'' ?L)\<bar> > 1 / 100"
    unfolding f i(6) by simp
  have "balance (b_id salary) (budgets (snd (calculateBudgetsAvailable 7 ''2026-01-15'' ?L)))
      = Some (fst (calculateBudgetsAvailable 7 ''2026-01-15'' ?L))"
    using r g by blast
  then show ?thesis
    using p f by (simp only: i(5))
qed

section \<open>Tontine contribution\<close>

lemma post_contribute_linked:
  assumes "amt \<noteq> 0" "find (\<lambda>t. tn_id t = tid) (tontines s) = Some tn"
    and "find (\<lambda>m. m_userId m = u) (members tn) = Some m" "tn_budgetId tn = Some bid"
  shows "post_contribute d tid u amt s =
           (Ok, day_rollup u d (contribution_written d tid u bid (tn_name tn) amt s))"
  using assms by (simp add: post_contribute_def contribution_written_def Let_def)

text \<open>
  C10 (as the code has it). A contribution of a non-zero amount by a member of a tontine
  linked to a budget is always answered \<open>Ok\<close>: no balance and no day lock is looked at
  (a locked Day stays locked and is rewritten all the same). It appends one expense
  Transaction and no expense JournalEntry; the Day of the date gets \<open>expenses\<close> equal to
  the day's earlier expenses plus the amount and \<open>finalPocket = initialPocket + gains -
  expenses\<close>. The contribution itself writes no budget, so every budget keeps its
  balance, except that the availability reconciler run by the Day block, whose figure now
  counts the new expense, may overwrite the primary monthly budget with that figure and
  append its adjustment entry.
\<close>

theorem tontine_contribution_effect:
  assumes "amt \<noteq> 0" and "find (\<lambda>t. tn_id t = tid) (tontines s) = Some tn"
    and "find (\<lambda>m. m_userId m = u) (members tn) = Some m" and "tn_budgetId tn = Some bid"
    and "post_contribute currentDate tid u amt s = (r, s')"
  shows "r = Ok
    \<and> transactions s' = transactions s @ [contribute_transaction currentDate u bid (tn_name tn) amt]
    \<and> t_type (contribute_transaction currentDate u bid (tn_name tn) amt) = Expense
    \<and> (\<exists>day. find_day u currentDate (days s') = Some day
          \<and> expenses day = today_sum Expense u currentDate (transactions s) + amt
          \<and> gains day = today_sum Gain u currentDate (transactions s)
          \<and> finalPocket day = initialPocket day + gains day - expenses day
          \<and> locked day = day_is_locked u currentDate (days s)
          \<and> budgetsAvailable day =
               (case primary_monthly u (budgets s) of
                  None \<Rightarrow> 0
                | Some p \<Rightarrow> available_figure p
                             (month_expenses u currentDate (transactions s) + amt))
          \<and> (journal s' = journal s
              \<or> (\<exists>p. primary_monthly u (budgets s) = Some p
                    \<and> journal s' = journal s @
                         [reconcile_entry u (b_id p) (currentAmount p) (budgetsAvailable day)]))
          \<and> (\<forall>i. balance i (budgets s') = balance i (budgets s)
                \<or> (map_option b_id (primary_monthly u (budgets s)) = Some i
                   \<and> balance i (budgets s') = Some (budgetsAvailable day))))"
proof -
  let ?tx = "contribute_transaction currentDate u bid (tn_name tn) amt"
  let ?W = "contribution_written currentDate tid u bid (tn_name tn) amt s"
  have rs: "r = Ok" "s' = day_rollup u currentDate ?W"
    using post_contribute_linked [OF assms(1-4), of currentDate] assms(5) by simp_all
  have W: "budgets ?W = budgets s" "days ?W = days s"
    "transactions ?W = transactions s @ [?tx]" "journal ?W = journal s"
    by (simp_all add: contribution_written_def)
  have tx: "t_type ?tx = Expense" "t_userId ?tx = u" "t_date ?tx = currentDate"
    "t_amount ?tx = amt"
    by (simp_all add: contribute_transaction_def)
  obtain day where day: "find_day u currentDate (days s') = Some day"
    and bA: "budgetsAvailable day = fst (calculateBudgetsAvailable u currentDate ?W)"
    and g: "gains day = today_sum Gain u currentDate (transactions ?W)"
    and e: "expenses day = today_sum Expense u currentDate (transactions ?W)"
    and f: "finalPocket day = initialPocket day + gains day - expenses day"
    and l: "locked day = day_is_locked u currentDate (days ?W)"
    using day_rollup_day [of u currentDate ?W] unfolding rs(2) today_sum_def by blast
  have g': "gains day = today_sum Gain u currentDate (transactions s)"
    unfolding g W(3) using tx by (simp add: today_sum_append)
  have e': "expenses day = today_sum Expense u currentDate (transactions s) + amt"
    unfolding e W(3) using tx by (simp add: today_sum_append)
  have bA': "budgetsAvailable day =
               (case primary_monthly u (budgets s) of
                  None \<Rightarrow> 0
                | Some p \<Rightarrow> available_figure p
                             (month_expenses u currentDate (transactions s) + amt))"
    unfolding bA fst_calculateBudgetsAvailable W(1) W(3)
      month_expenses_expense [OF tx(1) tx(2) tx(3)] tx(4) ..
  have j: "journal s' = journal s
              \<or> (\<exists>p. primary_monthly u (budgets s) = Some p
                    \<and> journal s' = journal s @
                         [reconcile_entry u (b_id p) (currentAmount p) (budgetsAvailable day)])"
    using journal_calculateBudgetsAvailable [of u currentDate ?W]
    unfolding rs(2) journal_day_rollup W(1) W(4) bA by auto
  have b: "balance i (budgets s') = balance i (budgets s)
                \<or> (map_option b_id (primary_monthly u (budgets s)) = Some i
                   \<and> balance i (budgets s') = Some (budgetsAvailable day))" for i
    using balance_calculateBudgetsAvailable [of i u currentDate ?W]
    unfolding rs(2) budgets_day_rollup W(1) bA .
  have t: "transactions s' = transactions s @ [?tx]"
    unfolding rs(2) by (simp add: day_rollup_frame W(3))
  have "\<exists>day. find_day u currentDate (days s') = Some day
          \<and> expenses day = today_sum Expense u currentDate (transactions s) + amt
          \<and> gains day = today_sum Gain u currentDate (transactions s)
          \<and> finalPocket day = initialPocket day + gains day - expenses day
          \<and> locked day = day_is_locked u currentDate (days s)
          \<and> budgetsAvailable day =
               (case primary_monthly u (budgets s) of
                  None \<Rightarrow> 0
                | Some p \<Rightarrow> available_figure p
                             (month_expenses u currentDate (transactions s) + amt))
          \<and> (journal s' = journal s
              \<or> (\<exists>p. primary_monthly u (budgets s) = Some p
                    \<and> journal s' = journal s @
                         [reconcile_entry u (b_id p) (currentAmount p) (budgetsAvailable day)]))
          \<and> (\<forall>i. balance i (budgets s') = balance i (budgets s)
                \<or> (map_option b_id (primary_monthly u (budgets s)) = Some i
                   \<and> balance i (budgets s') = Some (budgetsAvailable day)))"
    using day e' g' f l [unfolded W(2)] bA' j b by (intro exI [of _ day]) blast
  then show ?thesis
    using rs(1) t tx(1) by simp
qed

theorem tontine_contribution_effect_counterexample:
  "fst (post_contribute ''2026-01-15'' 5 7 1000 tontine_ledger) = Ok
   \<and> balance 1 (budgets tontine_ledger) = Some 400000
   \<and> balance 1 (budgets (snd (post_contribute ''2026-01-15'' 5 7 1000 tontine_ledger)))
       = Some 399000"
  by (simp add: post_contribute_def contribute_transaction_def tontine_ledger_def
      office_tontine_def synced_salary_def eval_defs)

theorem tontine_contribution_effect_witness:
  "day_is_locked 7 ''2026-01-15'' (days tontine_ledger)
   \<and> fst (post_contribute ''2026-01-15'' 5 7 1000 tontine_ledger) = Ok
   \<and> transactions (snd (post_contribute ''2026-01-15'' 5 7 1000 tontine_ledger))
       = [contribute_transaction ''2026-01-15'' 7 1 ''Office'' 1000]"
proof -
  let ?p = "post_contribute ''2026-01-15'' 5 7 1000 tontine_ledger"
  have a: "(1000::real) \<noteq> 0" by simp
  have t: "find (\<lambda>t. tn_id t = 5) (tontines tontine_ledger) = Some office_tontine"
    by (simp add: tontine_ledger_def office_tontine_def)
  have m: "find (\<lambda>m. m_userId m = 7) (members office_tontine)
      = Some \<lparr>m_userId = 7, contributed = 0\<rparr>"
    by (simp add: office_tontine_def)
  have b: "tn_budgetId office_tontine = Some 1" "tn_name office_tontine = ''Office''"
    "transactions tontine_ledger = []"
    by (simp_all add: office_tontine_def tontine_ledger_def)
  have l: "day_is_locked 7 ''2026-01-15'' (days tontine_ledger)"
    by (simp add: tontine_ledger_def day_is_locked_def find_day_def)
  have p: "?p = (fst ?p, snd ?p)" by simp
  from tontine_contribution_effect [OF a t m b(1) p]
  have "fst ?p = Ok
    \<and> transactions (snd ?p) = transactions tontine_ledger @
         [contribute_transaction ''2026-01-15'' 7 1 (tn_name office_tontine) 1000]"
    by blast
  then show ?thesis
    using l by (simp only: b append_Nil)
qed

section \<open>Day coherence\<close>

lemmas scenario_defs = after_second_expense_def after_first_expense_def today_opened_def
  yesterday_ledger_def

text \<open>
  C4. Every run of the Day block writes \<open>finalPocket = initialPocket + gains - expenses\<close>
  (lemma \<open>day_rollup_day\<close>), but it takes \<open>initialPocket\<close> from the latest Day of the
  user, which is the Day of the current date itself once that exists. In the scenario the
  Day is opened with \<open>initialPocket = 2000\<close>, yesterday's \<open>finalPocket\<close>; it still is
  2000 after the first expense, and the second expense rewrites it to 1900, the
  \<open>finalPocket\<close> the first expense left, so that the Day closes at 1750 with 150 of
  expenses.
\<close>

theorem day_initialPocket_recomputed:
  "map_option initialPocket (find_day 7 ''2026-01-15'' (days today_opened)) = Some 2000
   \<and> map_option initialPocket (find_day 7 ''2026-01-15'' (days after_first_expense)) = Some 2000
   \<and> map_option initialPocket (find_day 7 ''2026-01-15'' (days after_second_expense)) = Some 1900
   \<and> map_option expenses (find_day 7 ''2026-01-15'' (days after_second_expense)) = Some 150
   \<and> map_option finalPocket (find_day 7 ''2026-01-15'' (days after_second_expense)) = Some 1750"
  by (simp add: scenario_defs eval_defs)

section \<open>Startup in production\<close>

text \<open>
  C9. In a production deployment whose store cannot open a session, the probe clears the
  flag and the process listens all the same: after the \<open>connected\<close> handler and
  \<open>startServer\<close> it serves traffic with \<open>TRANSACTIONS_SUPPORTED = false\<close>, in either
  order of the two (lemma \<open>production_expense_takes_fallback\<close>: the expense it is
  then sent goes through the fallback). A store that rejects the commit of the probe
  leaves the flag \<open>true\<close>.
\<close>

theorem production_serves_without_transactions:
  "\<not> TRANSACTIONS_SUPPORTED (run Production [Connected StartSessionThrows, StartServerListens])
   \<and> serves_traffic (run Production [Connected StartSessionThrows, StartServerListens])
   \<and> serves_traffic (run Production [StartServerListens, Connected StartSessionThrows])
   \<and> checkTransactionsSupport CommitRejected"
  by (simp add: run_def module_loaded_def serves_traffic_def)

lemma production_expense_takes_fallback:
  "map ruleApplied (journal (snd (post_transaction
         (TRANSACTIONS_SUPPORTED (run Production [Connected StartSessionThrows, StartServerListens]))
         id ''2026-01-15'' (expense_request 3 100)
         (ledger_of [salary, week_budget, day_budget]))))
       = [''cascade_expense_fallback'', ''reconcile_primary_current_amount'']"
  by (simp add: run_def module_loaded_def eval_defs)

end
